theory Spec2Isabelle
  imports Main
begin

section \<open>Role profiles (src/prompt_forge/core/role_profiles.py)\<close>

text \<open>
  \<^verbatim>\<open>ROLE_PROFILES: dict[str, list[str] | None]\<close> is a dictionary literal with five keys.
  It is kept as an association list in the order of the source; the value \<open>None\<close> of
  the source (``full SOUL'') is the inner \<open>None\<close>, a list of section keys is \<open>Some keys\<close>.
\<close>

definition ROLE_PROFILES :: "(string \<times> string list option) list" where
  "ROLE_PROFILES =
    [(''king'', None),
     (''developer'', Some [''voice'', ''identity'', ''boundaries'', ''thinking_mode'',
                           ''anti_patterns'', ''communication_rules'']),
     (''reviewer'', Some [''voice'', ''identity'', ''boundaries'', ''communication_rules'']),
     (''tester'', Some [''voice'', ''identity'', ''boundaries'', ''communication_rules'']),
     (''security'', Some [''voice'', ''identity'', ''boundaries'', ''communication_rules''])]"

text \<open>
  \<^verbatim>\<open>return ROLE_PROFILES.get(role)\<close>: \<open>dict.get\<close> gives the stored value, and \<open>None\<close>
  for a key that is not in the dictionary. It raises nothing for a string key.
\<close>

definition get_sections_for_role :: "string \<Rightarrow> string list option" where
  "get_sections_for_role role =
     (case map_of ROLE_PROFILES role of None \<Rightarrow> None | Some profile \<Rightarrow> profile)"

section \<open>Data model\<close>

text \<open>
  A section map is an ordered dictionary from section keys to text (a Python \<open>dict\<close>,
  which keeps insertion order): an association list. Version numbers are Python integers.
\<close>

type_synonym content = "(string \<times> string) list"

text \<open>
  The rows of the three tables the endpoints work on. A version row carries the fields the
  endpoints read (\<^verbatim>\<open>version["version"]\<close>, \<^verbatim>\<open>v_from["content"]\<close>) and the identity of its
  branch; the creation time, the content hash and the parent version of the spec's Version
  are computed by code that is not among the sources and are read by nothing here, so the
  rows do not carry them.
\<close>

record prompt_row =
  p_id :: string
  p_slug :: string

record version_row =
  v_prompt_id :: string
  v_branch :: string
  v_version :: int
  v_content :: content
  v_message :: string
  v_author :: string

record subscription_row =
  sub_id :: nat
  sub_prompt_id :: string
  sub_agent_id :: string
  sub_subscribed_at :: string
  sub_last_pulled_at :: string

text \<open>
  What a collaborator raises. \<open>Exception s\<close> is an instance of Python's \<^verbatim>\<open>Exception\<close>
  with \<^verbatim>\<open>str(e) = s\<close>; \<open>BaseException s\<close> is an instance of a class that derives from
  \<^verbatim>\<open>BaseException\<close> but not from \<^verbatim>\<open>Exception\<close>, \<open>s\<close> its name:
  \<^verbatim>\<open>asyncio.CancelledError\<close>, which an \<^verbatim>\<open>await\<close> raises when the task is cancelled,
  \<^verbatim>\<open>KeyboardInterrupt\<close>, \<^verbatim>\<open>SystemExit\<close>. \<^verbatim>\<open>except Exception\<close> takes the first kind only.
\<close>

datatype exn = Exception string | BaseException string

text \<open>
  Errors. \<open>HTTPException\<close> is the exception the endpoints raise, with its status code and
  what its detail string names; \<open>RequestValidationError\<close> is the 422 answer of the
  framework to a query parameter that violates its declared bound; \<open>Uncaught\<close> is an
  exception of a collaborator that no handler of the endpoint takes; the others are the
  error kinds of the spec.
\<close>

datatype detail = PromptNotFound string | VersionNotFound int | VersionsNotFound

datatype error =
    HTTPException nat detail
  | RequestValidationError
  | NotFound
  | InvalidContent
  | RolePolicyUnknown
  | Uncaught exn

section \<open>Composition resolver\<close>

record composed_prompt =
  cp_prompt_id :: string
  cp_branch :: string
  cp_version :: int
  cp_sections :: content

definition compose :: "version_row \<Rightarrow> content \<Rightarrow> composed_prompt" where
  "compose ver sections =
     \<lparr>cp_prompt_id = v_prompt_id ver, cp_branch = v_branch ver,
      cp_version = v_version ver, cp_sections = sections\<rparr>"

text \<open>
  The sections of an allow-list: each listed key in turn, with its text when the content
  has the key, skipped when it has not.
\<close>

definition select_sections :: "string list \<Rightarrow> content \<Rightarrow> content" where
  "select_sections keys c = List.map_filter (\<lambda>k. map_option (Pair k) (map_of c k)) keys"

text \<open>
  Modelled from the spec: the resolver (\<^verbatim>\<open>prompt_forge.core.resolver\<close>) is not among the
  sources; the role lookup is: \<open>resolve\<close> asks \<open>get_sections_for_role\<close> of the source
  for the profile. Spec 4.3 for what it does with the profile: the ``all'' sentinel
  (\<open>None\<close>, ``full content'' in the words of the lookup) gives every section of the
  content in its original order; an allow-list gives the sections whose key is listed, in
  the order of the list, a listed key that the content lacks being skipped. The lookup
  raises nothing and gives \<open>None\<close> for a role that the table does not have, so the
  failure with \<open>RolePolicyUnknown\<close> that the spec names has no path here: the result
  type keeps the error side of the spec's signature, and no role reaches it.
\<close>

definition resolve :: "version_row \<Rightarrow> string \<Rightarrow> error + composed_prompt" where
  "resolve ver role =
     (case get_sections_for_role role of
        None \<Rightarrow> Inr (compose ver (v_content ver))
      | Some keys \<Rightarrow> Inr (compose ver (select_sections keys (v_content ver))))"

section \<open>Row storage, registry and version control\<close>

text \<open>
  Modelled from the spec: the storage client (\<^verbatim>\<open>prompt_forge.db.client\<close>) is not among the
  sources. Spec 6: key-filtered select, insert and update on named tables. The store holds
  the three tables; \<open>calls\<close> records, in order, every call that the endpoints make on
  their \<^verbatim>\<open>db\<close> handle, so that a path that never touches the store can be told from one
  that only reads it. The endpoints call the handle on \<^verbatim>\<open>prompt_subscriptions\<close> only.
\<close>

datatype db_call =
    Select string string
  | Update string nat string
  | Insert string string string string string

record db =
  prompts :: "prompt_row list"
  prompt_versions :: "version_row list"
  prompt_subscriptions :: "subscription_row list"
  calls :: "db_call list"

text \<open>\<^verbatim>\<open>db.select("prompt_subscriptions", filters={"prompt_id": prompt_id})\<close>\<close>

definition db_select :: "db \<Rightarrow> string \<Rightarrow> subscription_row list \<times> db" where
  "db_select db prompt_id =
     (filter (\<lambda>r. sub_prompt_id r = prompt_id) (prompt_subscriptions db),
      db\<lparr>calls := calls db @ [Select ''prompt_subscriptions'' prompt_id]\<rparr>)"

text \<open>\<^verbatim>\<open>db.update("prompt_subscriptions", row_id, {"last_pulled_at": now})\<close>\<close>

definition db_update :: "db \<Rightarrow> nat \<Rightarrow> string \<Rightarrow> db" where
  "db_update db row_id now =
     db\<lparr>prompt_subscriptions :=
          map (\<lambda>r. if sub_id r = row_id then r\<lparr>sub_last_pulled_at := now\<rparr> else r)
              (prompt_subscriptions db),
        calls := calls db @ [Update ''prompt_subscriptions'' row_id now]\<rparr>"

text \<open>
  \<^verbatim>\<open>db.insert("prompt_subscriptions", {...})\<close>: the caller gives no id, the store assigns
  one; it is modelled as a number above every id of the table.
\<close>

definition fresh_id :: "subscription_row list \<Rightarrow> nat" where
  "fresh_id rows = Suc (foldr max (map sub_id rows) 0)"

definition db_insert :: "db \<Rightarrow> string \<Rightarrow> string \<Rightarrow> string \<Rightarrow> string \<Rightarrow> db" where
  "db_insert db prompt_id agent_id subscribed_at last_pulled_at =
     db\<lparr>prompt_subscriptions := prompt_subscriptions db @
          [\<lparr>sub_id = fresh_id (prompt_subscriptions db), sub_prompt_id = prompt_id,
            sub_agent_id = agent_id, sub_subscribed_at = subscribed_at,
            sub_last_pulled_at = last_pulled_at\<rparr>],
        calls := calls db @
          [Insert ''prompt_subscriptions'' prompt_id agent_id subscribed_at last_pulled_at]\<rparr>"

text \<open>
  Modelled from the spec: the registry (\<^verbatim>\<open>prompt_forge.core.registry\<close>) is not among the
  sources. \<^verbatim>\<open>registry.get_prompt(slug)\<close> gives the prompt of that slug, or nothing.
\<close>

definition registry_get_prompt :: "db \<Rightarrow> string \<Rightarrow> prompt_row option" where
  "registry_get_prompt db slug = find (\<lambda>p. p_slug p = slug) (prompts db)"

text \<open>
  Modelled from the spec: \<^verbatim>\<open>VersionControl\<close> (\<^verbatim>\<open>prompt_forge.core.vcs\<close>) is not among the
  sources. What spec 4.1 leaves open is a field of the \<open>vcs\<close> object that the endpoints
  receive: the ceiling that \<open>history\<close> clamps its limit to, the branch that \<open>rollback\<close>
  works on (it takes none), and the message that \<open>rollback\<close> generates from the number of
  its target.
\<close>

record vcs =
  history_ceiling :: int
  rollback_branch :: string
  rollback_message :: "int \<Rightarrow> string"

definition branch_versions :: "db \<Rightarrow> string \<Rightarrow> string \<Rightarrow> version_row list" where
  "branch_versions db prompt_id branch =
     filter (\<lambda>v. v_prompt_id v = prompt_id \<and> v_branch v = branch) (prompt_versions db)"

text \<open>
  Modelled from the spec: the head of (prompt, branch) is its highest committed version
  number, 0 if the branch has no history.
\<close>

definition vcs_head :: "db \<Rightarrow> string \<Rightarrow> string \<Rightarrow> int" where
  "vcs_head db prompt_id branch =
     (case branch_versions db prompt_id branch of
        [] \<Rightarrow> 0
      | v # vs \<Rightarrow> Max (set (map v_version (v # vs))))"

text \<open>
  Modelled from the spec: \<open>history\<close> returns up to \<open>limit\<close> most recent versions of the
  branch, ordered by version descending; a limit above the ceiling is clamped. The spec
  only says that the limit must be positive; \<open>nat\<close> makes any other limit return nothing.
\<close>

definition vcs_history :: "vcs \<Rightarrow> db \<Rightarrow> string \<Rightarrow> string \<Rightarrow> int \<Rightarrow> version_row list" where
  "vcs_history vcs db prompt_id branch limit =
     take (nat (min limit (history_ceiling vcs)))
          (rev (sort_key v_version (branch_versions db prompt_id branch)))"

text \<open>Modelled from the spec: \<open>get_version\<close> is an exact lookup.\<close>

definition vcs_get_version :: "db \<Rightarrow> string \<Rightarrow> int \<Rightarrow> string \<Rightarrow> version_row option" where
  "vcs_get_version db prompt_id version branch =
     find (\<lambda>v. v_version v = version) (branch_versions db prompt_id branch)"

text \<open>
  Modelled from the spec: \<open>commit\<close> fails with \<open>InvalidContent\<close> on an empty content;
  otherwise it takes the head of (prompt, branch), assigns \<open>version = head + 1\<close>, appends
  the new version to the history and returns it. It is a pure append: no stored version
  is touched.
\<close>

definition vcs_commit ::
  "db \<Rightarrow> string \<Rightarrow> content \<Rightarrow> string \<Rightarrow> string \<Rightarrow> string \<Rightarrow> error + (version_row \<times> db)" where
  "vcs_commit db prompt_id content message author branch =
     (if content = [] then Inl InvalidContent
      else
        let head = vcs_head db prompt_id branch;
            version = \<lparr>v_prompt_id = prompt_id, v_branch = branch, v_version = head + 1,
                       v_content = content, v_message = message, v_author = author\<rparr>
        in Inr (version, db\<lparr>prompt_versions := prompt_versions db @ [version]\<rparr>))"

text \<open>
  Modelled from the spec: \<open>rollback\<close> reads the content of the target version, then
  commits that content with a generated message and the given author; without the target
  it returns nothing and commits nothing.
\<close>

definition vcs_rollback ::
  "vcs \<Rightarrow> db \<Rightarrow> string \<Rightarrow> int \<Rightarrow> string \<Rightarrow> error + (version_row option \<times> db)" where
  "vcs_rollback vcs db prompt_id version author =
     (case vcs_get_version db prompt_id version (rollback_branch vcs) of
        None \<Rightarrow> Inr (None, db)
      | Some target \<Rightarrow>
          (case vcs_commit db prompt_id (v_content target) (rollback_message vcs version)
                  author (rollback_branch vcs) of
             Inl e \<Rightarrow> Inl e
           | Inr (new_version, db1) \<Rightarrow> Inr (Some new_version, db1)))"

section \<open>Version control endpoints (src/prompt_forge/api/versions.py)\<close>

subsection \<open>Subscriptions\<close>

text \<open>
  \<^verbatim>\<open>_auto_subscribe(prompt_id, agent_id, db)\<close>; \<open>now\<close> is the clock reading
  \<^verbatim>\<open>datetime.now(timezone.utc).isoformat()\<close>. \<^verbatim>\<open>if not agent_id: return\<close> leaves at once
  for \<open>None\<close> and for the empty string.
\<close>

definition auto_subscribe :: "string \<Rightarrow> string option \<Rightarrow> string \<Rightarrow> db \<Rightarrow> db" where
  "auto_subscribe prompt_id agent_id now db =
     (case agent_id of
        None \<Rightarrow> db
      | Some a \<Rightarrow>
          if a = [] then db
          else
            let (rows, db1) = db_select db prompt_id;
                existing = filter (\<lambda>r. sub_agent_id r = a) rows
            in (case existing of
                  r # _ \<Rightarrow> db_update db1 (sub_id r) now
                | [] \<Rightarrow> db_insert db1 prompt_id a now now))"

subsection \<open>Notifications\<close>

text \<open>
  The event publisher (\<^verbatim>\<open>prompt_forge.core.events\<close>) is an outside collaborator: a
  \<open>publisher\<close> says whether it is connected and, for the n-th event it is handed in a
  call, whether \<^verbatim>\<open>await publisher.publish(...)\<close> returns (\<open>None\<close>) or raises, and what.
  \<open>effects\<close> are what a call leaves outside the store: the events published and the
  records logged, in order.
\<close>

record event =
  event_type :: string
  subject :: string
  ev_slug :: string
  ev_prompt_id :: string
  ev_old_version :: int
  ev_new_version :: int
  ev_change_note :: string
  ev_priority :: string

record publisher =
  connected :: bool
  publish :: "nat \<Rightarrow> event \<Rightarrow> exn option"

datatype log_record =
    LogInfo string string string int
  | LogWarning string string

record effects =
  published :: "event list"
  logged :: "log_record list"

definition no_effects :: effects where
  "no_effects = \<lparr>published = [], logged = []\<rparr>"

definition prompt_updated ::
  "string \<Rightarrow> string \<Rightarrow> int \<Rightarrow> int \<Rightarrow> string \<Rightarrow> string \<Rightarrow> string \<Rightarrow> event" where
  "prompt_updated prompt_id slug old_version new_version change_note priority agent_id =
     \<lparr>event_type = ''prompt.updated'',
      subject = ''swarm.forge.agent.'' @ agent_id @ ''.prompt-updated'',
      ev_slug = slug, ev_prompt_id = prompt_id, ev_old_version = old_version,
      ev_new_version = new_version, ev_change_note = change_note, ev_priority = priority\<rparr>"

text \<open>
  \<^verbatim>\<open>for sub in subs: await publisher.publish(...); logger.info(...)\<close>. The loop stops at
  the first \<open>publish\<close> that raises, and gives the exception with the effects so far.
\<close>

fun publish_each ::
  "publisher \<Rightarrow> (string \<Rightarrow> event) \<Rightarrow> string \<Rightarrow> int \<Rightarrow> subscription_row list \<Rightarrow> effects
   \<Rightarrow> exn option \<times> effects" where
  "publish_each pub mk slug new_version [] eff = (None, eff)"
| "publish_each pub mk slug new_version (sub # subs) eff =
     (let agent_id = sub_agent_id sub in
      case publish pub (length (published eff)) (mk agent_id) of
        Some e \<Rightarrow> (Some e, eff)
      | None \<Rightarrow>
          publish_each pub mk slug new_version subs
            (eff\<lparr>published := published eff @ [mk agent_id],
                 logged := logged eff @
                   [LogInfo ''subscription.notified'' agent_id slug new_version]\<rparr>))"

text \<open>
  The body of the \<^verbatim>\<open>try\<close> of \<^verbatim>\<open>_notify_subscribers\<close>. \<open>get_event_publisher\<close> is the
  outcome of importing and calling \<^verbatim>\<open>get_event_publisher()\<close>: the publisher, or the
  exception raised. The first component of the result is the exception that leaves the
  body, if any.
\<close>

definition notify_try ::
  "string \<Rightarrow> string \<Rightarrow> int \<Rightarrow> int \<Rightarrow> string \<Rightarrow> string \<Rightarrow> exn + publisher \<Rightarrow> db
   \<Rightarrow> exn option \<times> effects \<times> db" where
  "notify_try prompt_id slug old_version new_version change_note priority
      get_event_publisher db =
     (case get_event_publisher of
        Inl e \<Rightarrow> (Some e, no_effects, db)
      | Inr pub \<Rightarrow>
          if \<not> connected pub then (None, no_effects, db)
          else
            let (subs, db1) = db_select db prompt_id;
                (raised, eff) =
                  publish_each pub
                    (prompt_updated prompt_id slug old_version new_version change_note priority)
                    slug new_version subs no_effects
            in (raised, eff, db1))"

text \<open>
  \<^verbatim>\<open>_notify_subscribers\<close>: \<^verbatim>\<open>except Exception as e: logger.warning(...)\<close> takes an
  \<open>Exception\<close> of the body, logs it and returns. An exception of the other kind is
  not taken by the handler: it leaves \<^verbatim>\<open>_notify_subscribers\<close>, nothing logged. The first
  component of the result is the exception that leaves the function, if any.
\<close>

definition notify_subscribers ::
  "string \<Rightarrow> string \<Rightarrow> int \<Rightarrow> int \<Rightarrow> string \<Rightarrow> string \<Rightarrow> exn + publisher \<Rightarrow> db
   \<Rightarrow> exn option \<times> effects \<times> db" where
  "notify_subscribers prompt_id slug old_version new_version change_note priority
      get_event_publisher db =
     (case notify_try prompt_id slug old_version new_version change_note priority
             get_event_publisher db of
        (None, eff, db1) \<Rightarrow> (None, eff, db1)
      | (Some (Exception e), eff, db1) \<Rightarrow>
          (None,
           eff\<lparr>logged := logged eff @ [LogWarning ''subscription.notify_failed'' e]\<rparr>,
           db1)
      | (Some (BaseException b), eff, db1) \<Rightarrow> (Some (BaseException b), eff, db1))"

subsection \<open>Endpoints\<close>

text \<open>
  The request bodies (\<^verbatim>\<open>prompt_forge.api.models\<close>) with the fields the endpoints read;
  \<^verbatim>\<open>getattr(data, 'priority', 'normal')\<close> allows for a body without a priority.
\<close>

record version_create =
  vc_content :: content
  vc_message :: string
  vc_author :: string
  vc_branch :: string
  vc_priority :: "string option"

record rollback_request =
  rb_version :: int
  rb_author :: string

text \<open>
  \<^verbatim>\<open>create_version\<close>. An endpoint returns its answer (the exception raised, or the
  response) and the store after the call; \<open>create_version\<close> also returns the effects of
  its notification. \<^verbatim>\<open>await _notify_subscribers(...)\<close> stands in no \<^verbatim>\<open>try\<close>: an
  exception that leaves it leaves \<open>create_version\<close>, after the commit.
\<close>

definition create_version ::
  "vcs \<Rightarrow> exn + publisher \<Rightarrow> string \<Rightarrow> version_create \<Rightarrow> db
   \<Rightarrow> (error + version_row) \<times> db \<times> effects" where
  "create_version vcs get_event_publisher slug data db =
     (case registry_get_prompt db slug of
        None \<Rightarrow> (Inl (HTTPException 404 (PromptNotFound slug)), db, no_effects)
      | Some prompt \<Rightarrow>
          let history = vcs_history vcs db (p_id prompt) (vc_branch data) 1;
              old_version = (case history of [] \<Rightarrow> 0 | h # _ \<Rightarrow> v_version h)
          in (case vcs_commit db (p_id prompt) (vc_content data) (vc_message data)
                     (vc_author data) (vc_branch data) of
                Inl e \<Rightarrow> (Inl e, db, no_effects)
              | Inr (version, db1) \<Rightarrow>
                  let priority = (case vc_priority data of
                                    None \<Rightarrow> ''normal''
                                  | Some p \<Rightarrow> if p = [] then ''normal'' else p);
                      (raised, eff, db2) =
                        notify_subscribers (p_id prompt) slug old_version
                          (v_version version) (vc_message data) priority
                          get_event_publisher db1
                  in (case raised of
                        Some x \<Rightarrow> (Inl (Uncaught x), db2, eff)
                      | None \<Rightarrow> (Inr version, db2, eff))))"

text \<open>
  \<^verbatim>\<open>list_versions\<close>. \<^verbatim>\<open>branch: str = "main"\<close> and
  \<^verbatim>\<open>limit: int = Query(default=50, le=200)\<close>: a parameter that the request leaves out
  takes its default; a limit above 200 is refused by the framework with a validation
  error before the body runs. No lower bound is declared.
\<close>

definition list_versions ::
  "vcs \<Rightarrow> string \<Rightarrow> string option \<Rightarrow> int option \<Rightarrow> db \<Rightarrow> (error + version_row list) \<times> db" where
  "list_versions vcs slug branch_param limit_param db =
     (let branch = (case branch_param of None \<Rightarrow> ''main'' | Some b \<Rightarrow> b);
          limit = (case limit_param of None \<Rightarrow> 50 | Some l \<Rightarrow> l)
      in if \<not> limit \<le> 200 then (Inl RequestValidationError, db)
         else (case registry_get_prompt db slug of
                 None \<Rightarrow> (Inl (HTTPException 404 (PromptNotFound slug)), db)
               | Some prompt \<Rightarrow> (Inr (vcs_history vcs db (p_id prompt) branch limit), db)))"

text \<open>\<^verbatim>\<open>get_version\<close>; \<open>x_agent_id\<close> is the \<^verbatim>\<open>X-Agent-ID\<close> header, \<open>now\<close> the clock.\<close>

definition get_version ::
  "string \<Rightarrow> int \<Rightarrow> string option \<Rightarrow> string option \<Rightarrow> string \<Rightarrow> db
   \<Rightarrow> (error + version_row) \<times> db" where
  "get_version slug version branch_param x_agent_id now db =
     (let branch = (case branch_param of None \<Rightarrow> ''main'' | Some b \<Rightarrow> b)
      in case registry_get_prompt db slug of
           None \<Rightarrow> (Inl (HTTPException 404 (PromptNotFound slug)), db)
         | Some prompt \<Rightarrow>
             (case vcs_get_version db (p_id prompt) version branch of
                None \<Rightarrow> (Inl (HTTPException 404 (VersionNotFound version)), db)
              | Some ver \<Rightarrow> (Inr ver, auto_subscribe (p_id prompt) x_agent_id now db)))"

text \<open>
  \<^verbatim>\<open>diff_versions\<close>. The differ (\<^verbatim>\<open>prompt_forge.core.differ\<close>) is not among the sources;
  \<^verbatim>\<open>StructuralDiffer().diff\<close> is the parameter \<open>differ\<close>, a function of the two contents
  that gives the changes and the summary.
\<close>

record ('c, 's) diff_response =
  dr_prompt_id :: string
  dr_from_version :: int
  dr_to_version :: int
  dr_changes :: 'c
  dr_summary :: 's

definition diff_versions ::
  "(content \<Rightarrow> content \<Rightarrow> 'c \<times> 's) \<Rightarrow> string \<Rightarrow> int \<Rightarrow> int \<Rightarrow> string option \<Rightarrow> db
   \<Rightarrow> (error + ('c, 's) diff_response) \<times> db" where
  "diff_versions differ slug from_version to_version branch_param db =
     (let branch = (case branch_param of None \<Rightarrow> ''main'' | Some b \<Rightarrow> b)
      in case registry_get_prompt db slug of
           None \<Rightarrow> (Inl (HTTPException 404 (PromptNotFound slug)), db)
         | Some prompt \<Rightarrow>
             let prompt_id = p_id prompt;
                 v_from = vcs_get_version db prompt_id from_version branch;
                 v_to = vcs_get_version db prompt_id to_version branch
             in (case (v_from, v_to) of
                   (Some vf, Some vt) \<Rightarrow>
                     let d = differ (v_content vf) (v_content vt)
                     in (Inr \<lparr>dr_prompt_id = p_id prompt, dr_from_version = from_version,
                              dr_to_version = to_version, dr_changes = fst d,
                              dr_summary = snd d\<rparr>, db)
                 | _ \<Rightarrow> (Inl (HTTPException 404 VersionsNotFound), db)))"

text \<open>\<^verbatim>\<open>rollback_version\<close>\<close>

definition rollback_version ::
  "vcs \<Rightarrow> string \<Rightarrow> rollback_request \<Rightarrow> db \<Rightarrow> (error + version_row) \<times> db" where
  "rollback_version vcs slug data db =
     (case registry_get_prompt db slug of
        None \<Rightarrow> (Inl (HTTPException 404 (PromptNotFound slug)), db)
      | Some prompt \<Rightarrow>
          (case vcs_rollback vcs db (p_id prompt) (rb_version data) (rb_author data) of
             Inl e \<Rightarrow> (Inl e, db)
           | Inr (None, db1) \<Rightarrow>
               (Inl (HTTPException 404 (VersionNotFound (rb_version data))), db1)
           | Inr (Some version, db1) \<Rightarrow> (Inr version, db1)))"

text \<open>
  Modelled from the spec: the resolve request of spec 2 and 6 is not among the sources. It
  fetches the specified version, or the latest one of the branch, and hands it to
  \<open>resolve\<close> with the role.
\<close>

definition resolve_request ::
  "vcs \<Rightarrow> string \<Rightarrow> int option \<Rightarrow> string \<Rightarrow> string \<Rightarrow> db \<Rightarrow> (error + composed_prompt) \<times> db" where
  "resolve_request vcs prompt_id version_or_latest branch role db =
     (case (case version_or_latest of
              None \<Rightarrow> (case vcs_history vcs db prompt_id branch 1 of
                          [] \<Rightarrow> None | v # _ \<Rightarrow> Some v)
            | Some n \<Rightarrow> vcs_get_version db prompt_id n branch) of
        None \<Rightarrow> (Inl NotFound, db)
      | Some ver \<Rightarrow> (resolve ver role, db))"

section \<open>Notions for stating the properties\<close>

text \<open>The stored state: the three tables.\<close>

definition stored ::
  "db \<Rightarrow> prompt_row list \<times> version_row list \<times> subscription_row list" where
  "stored db = (prompts db, prompt_versions db, prompt_subscriptions db)"

text \<open>The subscription rows of an agent for a prompt.\<close>

definition subscriptions_of :: "string \<Rightarrow> string \<Rightarrow> db \<Rightarrow> subscription_row list" where
  "subscriptions_of prompt_id agent_id db =
     filter (\<lambda>r. sub_prompt_id r = prompt_id \<and> sub_agent_id r = agent_id)
            (prompt_subscriptions db)"

text \<open>
  A run of \<open>create_version\<close> requests, one after the other on the store the one before
  left, with their answers in order; and the version numbers that the successful ones
  among them were given on one (prompt, branch).
\<close>

fun create_versions ::
  "vcs \<Rightarrow> exn + publisher \<Rightarrow> (string \<times> version_create) list \<Rightarrow> db
   \<Rightarrow> (error + version_row) list \<times> db" where
  "create_versions vcs get_event_publisher [] db = ([], db)"
| "create_versions vcs get_event_publisher ((slug, data) # requests) db =
     (case create_version vcs get_event_publisher slug data db of
        (answer, db1, eff) \<Rightarrow>
          (case create_versions vcs get_event_publisher requests db1 of
             (answers, db2) \<Rightarrow> (answer # answers, db2)))"

definition committed_on :: "string \<Rightarrow> string \<Rightarrow> (error + version_row) list \<Rightarrow> int list" where
  "committed_on prompt_id branch answers =
     map v_version
       (filter (\<lambda>v. v_prompt_id v = prompt_id \<and> v_branch v = branch)
          (List.map_filter (\<lambda>a. case a of Inl e \<Rightarrow> None | Inr v \<Rightarrow> Some v) answers))"

text \<open>
  A publisher whose failures are all instances of \<open>Exception\<close>: neither obtaining it
  nor any \<open>publish\<close> raises an exception of the other kind.
\<close>

definition raises_exceptions_only :: "exn + publisher \<Rightarrow> bool" where
  "raises_exceptions_only get_event_publisher =
     (case get_event_publisher of
        Inl x \<Rightarrow> (case x of Exception e \<Rightarrow> True | BaseException b \<Rightarrow> False)
      | Inr pub \<Rightarrow> \<forall>n ev b. publish pub n ev \<noteq> Some (BaseException b))"

text \<open>An answer that is an exception no handler took.\<close>

definition uncaught :: "error + version_row \<Rightarrow> bool" where
  "uncaught answer = (case answer of Inl (Uncaught x) \<Rightarrow> True | _ \<Rightarrow> False)"

section \<open>Example stores and requests\<close>

text \<open>A small store for examples: one prompt with one version and one subscriber.\<close>

definition db_example :: db where
  "db_example =
     \<lparr>prompts = [\<lparr>p_id = ''p1'', p_slug = ''soul''\<rparr>],
      prompt_versions =
        [\<lparr>v_prompt_id = ''p1'', v_branch = ''main'', v_version = 1,
          v_content = [(''voice'', ''v1''), (''identity'', ''i1'')],
          v_message = ''first'', v_author = ''ann''\<rparr>],
      prompt_subscriptions =
        [\<lparr>sub_id = 1, sub_prompt_id = ''p1'', sub_agent_id = ''agent-1'',
          sub_subscribed_at = ''t0'', sub_last_pulled_at = ''t0''\<rparr>],
      calls = []\<rparr>"

text \<open>A version-control object for examples.\<close>

definition vcs_example :: vcs where
  "vcs_example =
     \<lparr>history_ceiling = 200, rollback_branch = ''main'',
      rollback_message = (\<lambda>n. ''rollback'')\<rparr>"

text \<open>
  A commit request, a publisher whose \<open>publish\<close> always raises an \<open>Exception\<close>, and
  one whose \<open>publish\<close> is cancelled while awaited, for examples.
\<close>

definition data_example :: version_create where
  "data_example =
     \<lparr>vc_content = [(''voice'', ''v2''), (''identity'', ''i1'')], vc_message = ''second'',
      vc_author = ''bob'', vc_branch = ''main'', vc_priority = None\<rparr>"

definition publisher_down :: publisher where
  "publisher_down =
     \<lparr>connected = True, publish = (\<lambda>n ev. Some (Exception ''connection lost''))\<rparr>"

definition publisher_cancelled :: publisher where
  "publisher_cancelled =
     \<lparr>connected = True, publish = (\<lambda>n ev. Some (BaseException ''CancelledError''))\<rparr>"

text \<open>A store with two prompts and no history, for examples.\<close>

definition db_empty :: db where
  "db_empty =
     \<lparr>prompts = [\<lparr>p_id = ''p1'', p_slug = ''soul''\<rparr>, \<lparr>p_id = ''p2'', p_slug = ''tools''\<rparr>],
      prompt_versions = [], prompt_subscriptions = [], calls = []\<rparr>"

text \<open>
  A run of seven commit requests on an empty history: four to the branch main of the
  first prompt, one of them with an empty content; one to its branch dev; one to the
  second prompt; one to a slug that no prompt has.
\<close>

definition commit_to :: "string \<Rightarrow> content \<Rightarrow> version_create" where
  "commit_to branch c =
     \<lparr>vc_content = c, vc_message = ''m'', vc_author = ''ann'', vc_branch = branch,
      vc_priority = None\<rparr>"

definition requests_example :: "(string \<times> version_create) list" where
  "requests_example =
     [(''soul'', commit_to ''main'' [(''voice'', ''v1'')]),
      (''soul'', commit_to ''dev'' [(''voice'', ''d1'')]),
      (''tools'', commit_to ''main'' [(''voice'', ''t1'')]),
      (''soul'', commit_to ''main'' [(''voice'', ''v2'')]),
      (''nobody'', commit_to ''main'' [(''voice'', ''x'')]),
      (''soul'', commit_to ''main'' []),
      (''soul'', commit_to ''main'' [(''voice'', ''v3'')])]"

section \<open>Properties of the role profiles\<close>

lemma role_profiles_keys:
  "map fst ROLE_PROFILES = [''king'', ''developer'', ''reviewer'', ''tester'', ''security'']"
  by (simp add: ROLE_PROFILES_def)

lemma map_of_unknown_role:
  "role \<notin> set (map fst ROLE_PROFILES) \<Longrightarrow> map_of ROLE_PROFILES role = None"
  by (simp add: map_of_eq_None_iff)

text \<open>
  Claim C9. For every role name that is not one of king, developer, reviewer, tester,
  security, \<open>get_sections_for_role\<close> returns \<open>None\<close>; it returns the same \<open>None\<close> for
  king, the full-content profile, so its result alone does not tell an unknown role from
  the all-sections role.
\<close>

theorem get_sections_for_role_unknown:
  assumes "role \<notin> {''king'', ''developer'', ''reviewer'', ''tester'', ''security''}"
  shows "get_sections_for_role role = None
       \<and> get_sections_for_role ''king'' = None
       \<and> get_sections_for_role role = get_sections_for_role ''king''"
proof -
  from assms have "role \<notin> set (map fst ROLE_PROFILES)"
    by (simp add: role_profiles_keys)
  then have unknown: "get_sections_for_role role = None"
    by (simp add: get_sections_for_role_def map_of_unknown_role)
  have king: "get_sections_for_role ''king'' = None"
    by (simp add: get_sections_for_role_def ROLE_PROFILES_def)
  from unknown king show ?thesis by simp
qed

theorem get_sections_for_role_unknown_witness:
  "''unknown-role'' \<notin> {''king'', ''developer'', ''reviewer'', ''tester'', ''security''}
   \<and> get_sections_for_role ''unknown-role'' = None
   \<and> get_sections_for_role ''king'' = None"
  using get_sections_for_role_unknown [of "''unknown-role''"] by simp

section \<open>Properties of the resolver\<close>

lemma map_fst_select_sections:
  "map fst (select_sections keys c) = filter (\<lambda>k. k \<in> fst ` set c) keys"
proof (induction keys)
  case Nil
  then show ?case by (simp add: select_sections_def)
next
  case (Cons k keys)
  show ?case
  proof (cases "map_of c k")
    case None
    then have "k \<notin> fst ` set c" by (simp add: map_of_eq_None_iff)
    with None Cons show ?thesis by (simp add: select_sections_def)
  next
    case (Some t)
    then have "k \<in> fst ` set c" by (metis map_of_eq_None_iff option.distinct(1))
    with Some Cons show ?thesis by (simp add: select_sections_def)
  qed
qed

lemma set_select_sections:
  "set (select_sections keys c) = {(k, t). k \<in> set keys \<and> map_of c k = Some t}"
  by (induction keys) (auto simp: select_sections_def split: option.splits)

lemma map_of_distinct_iff:
  "distinct (map fst c) \<Longrightarrow> map_of c k = Some t \<longleftrightarrow> (k, t) \<in> set c"
  by (auto intro: map_of_is_SomeI dest: map_of_SomeD)






text \<open>
  Claim C5. For a version whose content is a section map (its keys are distinct),
  resolving with role developer succeeds; the keys of the sections returned are the keys
  of the allow-list voice, identity, boundaries, thinking_mode, anti_patterns,
  communication_rules that the content has, in the order of the allow-list; the sections
  returned are exactly the sections of the content whose key is in the allow-list.
\<close>

theorem resolve_developer:
  assumes "distinct (map fst (v_content ver))"
  defines "allow \<equiv> [''voice'', ''identity'', ''boundaries'', ''thinking_mode'',
                     ''anti_patterns'', ''communication_rules'']"
  shows "\<exists>cp. resolve ver ''developer'' = Inr cp
            \<and> cp_prompt_id cp = v_prompt_id ver \<and> cp_branch cp = v_branch ver
            \<and> cp_version cp = v_version ver
            \<and> map fst (cp_sections cp) = filter (\<lambda>k. k \<in> fst ` set (v_content ver)) allow
            \<and> set (cp_sections cp) = {s \<in> set (v_content ver). fst s \<in> set allow}"
proof -
  have r: "resolve ver ''developer'' = Inr (compose ver (select_sections allow (v_content ver)))"
    by (simp add: resolve_def get_sections_for_role_def ROLE_PROFILES_def allow_def)
  have "set (select_sections allow (v_content ver))
        = {s \<in> set (v_content ver). fst s \<in> set allow}"
    using assms(1) by (auto simp: set_select_sections map_of_distinct_iff)
  with r show ?thesis
    by (simp add: compose_def map_fst_select_sections)
qed

theorem resolve_developer_witness:
  "distinct (map fst [(''identity'', ''i1''), (''tools'', ''t1''), (''voice'', ''v1'')])
   \<and> resolve \<lparr>v_prompt_id = ''p1'', v_branch = ''main'', v_version = 1,
               v_content = [(''identity'', ''i1''), (''tools'', ''t1''), (''voice'', ''v1'')],
               v_message = ''m'', v_author = ''a''\<rparr> ''developer''
       = Inr \<lparr>cp_prompt_id = ''p1'', cp_branch = ''main'', cp_version = 1,
              cp_sections = [(''voice'', ''v1''), (''identity'', ''i1'')]\<rparr>"
proof -
  let ?ver = "\<lparr>v_prompt_id = ''p1'', v_branch = ''main'', v_version = 1,
               v_content = [(''identity'', ''i1''), (''tools'', ''t1''), (''voice'', ''v1'')],
               v_message = ''m'', v_author = ''a''\<rparr>"
  have h: "distinct (map fst (v_content ?ver))" by simp
  from resolve_developer [OF h] obtain cp where
    cp: "resolve ?ver ''developer'' = Inr cp" by blast
  have "resolve ?ver ''developer''
        = Inr \<lparr>cp_prompt_id = ''p1'', cp_branch = ''main'', cp_version = 1,
               cp_sections = [(''voice'', ''v1''), (''identity'', ''i1'')]\<rparr>"
    by (simp add: resolve_def get_sections_for_role_def ROLE_PROFILES_def compose_def
                  select_sections_def)
  with h cp show ?thesis by simp
qed

text \<open>
  Claim C6. For every version, resolving with role king returns every section of the
  content of the version, in the original order, none dropped; king is the one role of
  the table whose profile is the ``all'' sentinel.
\<close>

theorem resolve_king:
  "resolve ver ''king'' = Inr (compose ver (v_content ver))
   \<and> cp_sections (compose ver (v_content ver)) = v_content ver
   \<and> (map_of ROLE_PROFILES role = Some None) = (role = ''king'')"
  by (simp add: resolve_def get_sections_for_role_def ROLE_PROFILES_def compose_def)

theorem resolve_king_witness:
  "resolve \<lparr>v_prompt_id = ''p1'', v_branch = ''main'', v_version = 1,
             v_content = [(''identity'', ''i1''), (''tools'', ''t1''), (''voice'', ''v1'')],
             v_message = ''m'', v_author = ''a''\<rparr> ''king''
   = Inr \<lparr>cp_prompt_id = ''p1'', cp_branch = ''main'', cp_version = 1,
          cp_sections = [(''identity'', ''i1''), (''tools'', ''t1''), (''voice'', ''v1'')]\<rparr>"
  using resolve_king [of "\<lparr>v_prompt_id = ''p1'', v_branch = ''main'', v_version = 1,
             v_content = [(''identity'', ''i1''), (''tools'', ''t1''), (''voice'', ''v1'')],
             v_message = ''m'', v_author = ''a''\<rparr>" "''king''"]
  by (simp add: compose_def)

section \<open>Properties of the subscription upsert\<close>

lemma auto_subscribe_no_agent:
  "agent_id = None \<or> agent_id = Some [] \<Longrightarrow> auto_subscribe pid agent_id now db = db"
  by (auto simp: auto_subscribe_def)

lemma existing_eq:
  "filter (\<lambda>r. sub_agent_id r = a) (fst (db_select db pid)) = subscriptions_of pid a db"
  by (simp add: db_select_def subscriptions_of_def conj_commute)

lemma auto_subscribe_existing:
  assumes "a \<noteq> []" "subscriptions_of pid a db = r # rest"
  shows "auto_subscribe pid (Some a) now db = db_update (snd (db_select db pid)) (sub_id r) now"
  using assms existing_eq [of a db pid]
  by (simp add: auto_subscribe_def split_beta Let_def)

lemma auto_subscribe_new:
  assumes "a \<noteq> []" "subscriptions_of pid a db = []"
  shows "auto_subscribe pid (Some a) now db = db_insert (snd (db_select db pid)) pid a now now"
  using assms existing_eq [of a db pid]
  by (simp add: auto_subscribe_def split_beta Let_def)

lemma update_only_row:
  assumes "distinct (map sub_id subs)" "r \<in> set subs"
  shows "map (\<lambda>x. if sub_id x = sub_id r then f x else x) subs
       = map (\<lambda>x. if x = r then f x else x) subs"
proof (rule map_cong [OF refl])
  fix x assume "x \<in> set subs"
  with assms have "sub_id x = sub_id r \<longleftrightarrow> x = r"
    by (auto simp: distinct_map inj_on_def)
  then show "(if sub_id x = sub_id r then f x else x) = (if x = r then f x else x)" by simp
qed

lemma subscriptions_of_update:
  "subscriptions_of pid a (db_update db i now)
   = map (\<lambda>r. if sub_id r = i then r\<lparr>sub_last_pulled_at := now\<rparr> else r) (subscriptions_of pid a db)"
  by (simp add: subscriptions_of_def db_update_def filter_map comp_def if_distrib cong: if_cong)


lemma auto_subscribe_again:
  assumes "a \<noteq> []"
  shows "length (subscriptions_of pid a (auto_subscribe pid (Some a) now2
                   (auto_subscribe pid (Some a) now db)))
         = max 1 (length (subscriptions_of pid a db))
       \<and> length (subscriptions_of pid a (auto_subscribe pid (Some a) now db))
         = max 1 (length (subscriptions_of pid a db))
       \<and> length (prompt_subscriptions (auto_subscribe pid (Some a) now2
                   (auto_subscribe pid (Some a) now db)))
         = length (prompt_subscriptions (auto_subscribe pid (Some a) now db))"
proof -
  have step: "length (subscriptions_of pid a (auto_subscribe pid (Some a) t d))
              = max 1 (length (subscriptions_of pid a d))
            \<and> length (prompt_subscriptions (auto_subscribe pid (Some a) t d))
              = (if subscriptions_of pid a d = [] then Suc (length (prompt_subscriptions d))
                 else length (prompt_subscriptions d))" for t d
  proof (cases "subscriptions_of pid a d")
    case Nil
    with assms show ?thesis
      by (simp add: auto_subscribe_new)
         (simp add: subscriptions_of_def db_insert_def db_select_def)
  next
    case (Cons r rest)
    have "subscriptions_of pid a (snd (db_select d pid)) = subscriptions_of pid a d"
      by (simp add: subscriptions_of_def db_select_def)
    with Cons assms show ?thesis
      by (simp add: auto_subscribe_existing subscriptions_of_update)
         (simp add: db_update_def db_select_def)
  qed
  let ?d1 = "auto_subscribe pid (Some a) now db"
  from step [of now db] have one: "subscriptions_of pid a ?d1 \<noteq> []"
    by (metis length_0_conv max.cobounded1 not_one_le_zero)
  from step [of now2 ?d1] step [of now db] one show ?thesis by simp
qed

text \<open>
  Claim C10. For every call of \<open>auto_subscribe\<close>: with no agent id (\<open>None\<close> or the
  empty string) the store is returned as it was, no call on it recorded, so it is neither
  read nor written. With an agent id, if a subscription row for (prompt, agent) exists
  (\<open>r\<close> the first one, ids being distinct), the store is selected from and updated once, and
  only the field \<open>last_pulled_at\<close> of that row changes; if none exists, the store is
  selected from and exactly one row is inserted. After a call the agent has as many rows
  for the prompt as before, or one if it had none, and a second call adds no row.
\<close>

theorem auto_subscribe_upsert:
  "(agent_id = None \<or> agent_id = Some [] \<longrightarrow> auto_subscribe pid agent_id now db = db)
 \<and> (a \<noteq> [] \<and> subscriptions_of pid a db = r # rest
       \<and> distinct (map sub_id (prompt_subscriptions db)) \<longrightarrow>
     auto_subscribe pid (Some a) now db =
       db\<lparr>prompt_subscriptions :=
            map (\<lambda>x. if x = r then x\<lparr>sub_last_pulled_at := now\<rparr> else x)
                (prompt_subscriptions db),
          calls := calls db @ [Select ''prompt_subscriptions'' pid,
                               Update ''prompt_subscriptions'' (sub_id r) now]\<rparr>)
 \<and> (a \<noteq> [] \<and> subscriptions_of pid a db = [] \<longrightarrow>
     auto_subscribe pid (Some a) now db =
       db\<lparr>prompt_subscriptions := prompt_subscriptions db @
            [\<lparr>sub_id = fresh_id (prompt_subscriptions db), sub_prompt_id = pid,
              sub_agent_id = a, sub_subscribed_at = now, sub_last_pulled_at = now\<rparr>],
          calls := calls db @ [Select ''prompt_subscriptions'' pid,
                               Insert ''prompt_subscriptions'' pid a now now]\<rparr>)
 \<and> (a \<noteq> [] \<longrightarrow>
     length (subscriptions_of pid a (auto_subscribe pid (Some a) now db))
       = max 1 (length (subscriptions_of pid a db))
   \<and> length (subscriptions_of pid a (auto_subscribe pid (Some a) now2
               (auto_subscribe pid (Some a) now db)))
       = max 1 (length (subscriptions_of pid a db))
   \<and> length (prompt_subscriptions (auto_subscribe pid (Some a) now2
               (auto_subscribe pid (Some a) now db)))
       = length (prompt_subscriptions (auto_subscribe pid (Some a) now db)))"
proof (intro conjI impI)
  assume "agent_id = None \<or> agent_id = Some []"
  then show "auto_subscribe pid agent_id now db = db"
    by (rule auto_subscribe_no_agent)
next
  assume h: "a \<noteq> [] \<and> subscriptions_of pid a db = r # rest
             \<and> distinct (map sub_id (prompt_subscriptions db))"
  then have "r \<in> set (subscriptions_of pid a db)" by simp
  then have "r \<in> set (prompt_subscriptions db)" by (simp add: subscriptions_of_def)
  with h have "map (\<lambda>x. if sub_id x = sub_id r then x\<lparr>sub_last_pulled_at := now\<rparr> else x)
                 (prompt_subscriptions db)
             = map (\<lambda>x. if x = r then x\<lparr>sub_last_pulled_at := now\<rparr> else x)
                 (prompt_subscriptions db)"
    by (simp add: update_only_row)
  with h show "auto_subscribe pid (Some a) now db =
       db\<lparr>prompt_subscriptions :=
            map (\<lambda>x. if x = r then x\<lparr>sub_last_pulled_at := now\<rparr> else x)
                (prompt_subscriptions db),
          calls := calls db @ [Select ''prompt_subscriptions'' pid,
                               Update ''prompt_subscriptions'' (sub_id r) now]\<rparr>"
    by (simp add: auto_subscribe_existing db_update_def db_select_def)
next
  assume "a \<noteq> [] \<and> subscriptions_of pid a db = []"
  then show "auto_subscribe pid (Some a) now db =
       db\<lparr>prompt_subscriptions := prompt_subscriptions db @
            [\<lparr>sub_id = fresh_id (prompt_subscriptions db), sub_prompt_id = pid,
              sub_agent_id = a, sub_subscribed_at = now, sub_last_pulled_at = now\<rparr>],
          calls := calls db @ [Select ''prompt_subscriptions'' pid,
                               Insert ''prompt_subscriptions'' pid a now now]\<rparr>"
    by (simp add: auto_subscribe_new db_insert_def db_select_def)
qed (simp_all add: auto_subscribe_again)

theorem auto_subscribe_upsert_witness:
  "auto_subscribe ''p1'' (Some []) ''t1'' db_example = db_example
 \<and> prompt_subscriptions (auto_subscribe ''p1'' (Some ''agent-1'') ''t1'' db_example)
     = [\<lparr>sub_id = 1, sub_prompt_id = ''p1'', sub_agent_id = ''agent-1'',
         sub_subscribed_at = ''t0'', sub_last_pulled_at = ''t1''\<rparr>]
 \<and> prompt_subscriptions (auto_subscribe ''p1'' (Some ''agent-2'') ''t1'' db_example)
     = [\<lparr>sub_id = 1, sub_prompt_id = ''p1'', sub_agent_id = ''agent-1'',
         sub_subscribed_at = ''t0'', sub_last_pulled_at = ''t0''\<rparr>,
        \<lparr>sub_id = 2, sub_prompt_id = ''p1'', sub_agent_id = ''agent-2'',
         sub_subscribed_at = ''t1'', sub_last_pulled_at = ''t1''\<rparr>]
 \<and> length (subscriptions_of ''p1'' ''agent-2''
       (auto_subscribe ''p1'' (Some ''agent-2'') ''t2''
          (auto_subscribe ''p1'' (Some ''agent-2'') ''t1'' db_example))) = 1"
proof -
  let ?r = "\<lparr>sub_id = 1, sub_prompt_id = ''p1'', sub_agent_id = ''agent-1'',
              sub_subscribed_at = ''t0'', sub_last_pulled_at = ''t0''\<rparr>"
  have e1: "''agent-1'' \<noteq> [] \<and> subscriptions_of ''p1'' ''agent-1'' db_example = ?r # []
            \<and> distinct (map sub_id (prompt_subscriptions db_example))"
    by (simp add: subscriptions_of_def db_example_def)
  have e2: "''agent-2'' \<noteq> [] \<and> subscriptions_of ''p1'' ''agent-2'' db_example = []"
    by (simp add: subscriptions_of_def db_example_def)
  note t1 = auto_subscribe_upsert [of "Some []" "''p1''" "''t1''" db_example "''agent-1''" ?r "[]" "''t2''"]
  note t2 = auto_subscribe_upsert [of None "''p1''" "''t1''" db_example "''agent-1''" ?r "[]" "''t2''"]
  note t3 = auto_subscribe_upsert [of None "''p1''" "''t1''" db_example "''agent-2''" ?r "[]" "''t2''"]
  from t1 have c1: "auto_subscribe ''p1'' (Some []) ''t1'' db_example = db_example" by simp
  from t2 e1 have c2: "prompt_subscriptions (auto_subscribe ''p1'' (Some ''agent-1'') ''t1'' db_example)
     = [\<lparr>sub_id = 1, sub_prompt_id = ''p1'', sub_agent_id = ''agent-1'',
         sub_subscribed_at = ''t0'', sub_last_pulled_at = ''t1''\<rparr>]"
    by (simp add: db_example_def)
  from t3 e2 have c3: "prompt_subscriptions (auto_subscribe ''p1'' (Some ''agent-2'') ''t1'' db_example)
     = [\<lparr>sub_id = 1, sub_prompt_id = ''p1'', sub_agent_id = ''agent-1'',
         sub_subscribed_at = ''t0'', sub_last_pulled_at = ''t0''\<rparr>,
        \<lparr>sub_id = 2, sub_prompt_id = ''p1'', sub_agent_id = ''agent-2'',
         sub_subscribed_at = ''t1'', sub_last_pulled_at = ''t1''\<rparr>]"
    by (simp add: db_example_def fresh_id_def)
  from t3 have "length (subscriptions_of ''p1'' ''agent-2''
       (auto_subscribe ''p1'' (Some ''agent-2'') ''t2''
          (auto_subscribe ''p1'' (Some ''agent-2'') ''t1'' db_example)))
       = max 1 (length (subscriptions_of ''p1'' ''agent-2'' db_example))"
    by blast
  with e2 have c4: "length (subscriptions_of ''p1'' ''agent-2''
       (auto_subscribe ''p1'' (Some ''agent-2'') ''t2''
          (auto_subscribe ''p1'' (Some ''agent-2'') ''t1'' db_example))) = 1"
    by simp
  from c1 c2 c3 c4 show ?thesis by simp
qed

section \<open>Properties of the read endpoints\<close>

lemma auto_subscribe_tables:
  "prompts (auto_subscribe pid agent_id now db) = prompts db
   \<and> prompt_versions (auto_subscribe pid agent_id now db) = prompt_versions db"
  by (simp add: auto_subscribe_def db_select_def db_update_def db_insert_def Let_def
           split: option.splits list.splits)

lemma vcs_head_cong:
  "prompt_versions db' = prompt_versions db \<Longrightarrow> vcs_head db' pid br = vcs_head db pid br"
  by (simp add: vcs_head_def branch_versions_def)

lemma get_version_cases:
  "get_version slug version branch_param x_agent_id now db = (res, db') \<Longrightarrow>
     (\<exists>e. res = Inl e \<and> db' = db)
   \<or> (\<exists>prompt ver. res = Inr ver \<and> registry_get_prompt db slug = Some prompt
        \<and> db' = auto_subscribe (p_id prompt) x_agent_id now db)"
  by (auto simp: get_version_def Let_def split: option.splits)

text \<open>
  Claim C2, as amended. \<open>list_versions\<close> (history), \<open>diff_versions\<close> (diff) and the
  resolve request return the store as it was, for every input. \<open>get_version\<close> leaves the
  prompts, the versions and every branch head as they were; it returns the store as it was
  when it fails and when no agent id (\<open>None\<close> or the empty string) comes with the
  request; when it succeeds for a prompt, the store it returns is the one
  \<open>auto_subscribe\<close> leaves for that prompt and the agent id of the request.
\<close>

theorem reads_frame:
  "snd (list_versions vcs slug branch_param limit_param db) = db
 \<and> snd (diff_versions differ slug from_version to_version branch_param db) = db
 \<and> snd (resolve_request vcs prompt_id version_or_latest branch role db) = db
 \<and> prompts (snd (get_version slug version branch_param x_agent_id now db)) = prompts db
 \<and> prompt_versions (snd (get_version slug version branch_param x_agent_id now db))
     = prompt_versions db
 \<and> vcs_head (snd (get_version slug version branch_param x_agent_id now db)) prompt_id branch
     = vcs_head db prompt_id branch
 \<and> (x_agent_id = None \<or> x_agent_id = Some []
      \<or> isl (fst (get_version slug version branch_param x_agent_id now db)) \<longrightarrow>
     snd (get_version slug version branch_param x_agent_id now db) = db)
 \<and> (\<not> isl (fst (get_version slug version branch_param x_agent_id now db)) \<longrightarrow>
     (\<exists>prompt. registry_get_prompt db slug = Some prompt
        \<and> snd (get_version slug version branch_param x_agent_id now db)
            = auto_subscribe (p_id prompt) x_agent_id now db))"
proof -
  obtain res db' where gv: "get_version slug version branch_param x_agent_id now db = (res, db')"
    by (cases "get_version slug version branch_param x_agent_id now db")
  have lv: "snd (list_versions vcs slug branch_param limit_param db) = db"
    by (simp add: list_versions_def Let_def split: option.splits)
  have dv: "snd (diff_versions differ slug from_version to_version branch_param db) = db"
    by (simp add: diff_versions_def Let_def split: option.splits prod.splits)
  have rr: "snd (resolve_request vcs prompt_id version_or_latest branch role db) = db"
    by (simp add: resolve_request_def split: option.splits list.splits)
  from get_version_cases [OF gv]
  have tabs: "prompts db' = prompts db \<and> prompt_versions db' = prompt_versions db"
    by (auto simp: auto_subscribe_tables)
  then have hd: "vcs_head db' prompt_id branch = vcs_head db prompt_id branch"
    by (rule vcs_head_cong [OF conjunct2])
  have same: "x_agent_id = None \<or> x_agent_id = Some [] \<or> isl res \<longrightarrow> db' = db"
  proof
    assume h: "x_agent_id = None \<or> x_agent_id = Some [] \<or> isl res"
    from get_version_cases [OF gv] show "db' = db"
    proof
      assume "\<exists>e. res = Inl e \<and> db' = db"
      then show ?thesis by blast
    next
      assume "\<exists>prompt ver. res = Inr ver \<and> registry_get_prompt db slug = Some prompt
                \<and> db' = auto_subscribe (p_id prompt) x_agent_id now db"
      then obtain prompt :: prompt_row and ver where r: "res = Inr ver"
        and d: "db' = auto_subscribe (p_id prompt) x_agent_id now db" by blast
      from h r have "x_agent_id = None \<or> x_agent_id = Some []" by simp
      with d show ?thesis by (simp add: auto_subscribe_no_agent)
    qed
  qed
  have sub: "\<not> isl res \<longrightarrow> (\<exists>prompt. registry_get_prompt db slug = Some prompt
               \<and> db' = auto_subscribe (p_id prompt) x_agent_id now db)"
  proof
    assume n: "\<not> isl res"
    from get_version_cases [OF gv] n
    show "\<exists>prompt. registry_get_prompt db slug = Some prompt
               \<and> db' = auto_subscribe (p_id prompt) x_agent_id now db"
      by (elim disjE exE conjE) (simp, blast)
  qed
  from lv dv rr tabs hd same sub show ?thesis
    by (simp add: gv)
qed

theorem reads_frame_witness:
  "snd (list_versions vcs_example ''soul'' None None db_example) = db_example
 \<and> fst (get_version ''soul'' 1 None None ''t1'' db_example)
     = Inr \<lparr>v_prompt_id = ''p1'', v_branch = ''main'', v_version = 1,
            v_content = [(''voice'', ''v1''), (''identity'', ''i1'')],
            v_message = ''first'', v_author = ''ann''\<rparr>
 \<and> snd (get_version ''soul'' 1 None None ''t1'' db_example) = db_example
 \<and> isl (fst (get_version ''soul'' 7 None (Some ''agent-2'') ''t1'' db_example))
 \<and> snd (get_version ''soul'' 7 None (Some ''agent-2'') ''t1'' db_example) = db_example"
proof -
  note t1 = reads_frame [of vcs_example "''soul''" None None db_example "\<lambda>a b. ((), ())" 1 1
      "''p1''" None "''main''" "''king''" 1 None "''t1''"]
  note t2 = reads_frame [of vcs_example "''soul''" None None db_example "\<lambda>a b. ((), ())" 1 1
      "''p1''" None "''main''" "''king''" 7 "Some ''agent-2''" "''t1''"]
  have ok: "fst (get_version ''soul'' 1 None None ''t1'' db_example)
     = Inr \<lparr>v_prompt_id = ''p1'', v_branch = ''main'', v_version = 1,
            v_content = [(''voice'', ''v1''), (''identity'', ''i1'')],
            v_message = ''first'', v_author = ''ann''\<rparr>"
    by (simp add: get_version_def Let_def registry_get_prompt_def vcs_get_version_def
                  branch_versions_def db_example_def)
  have miss: "isl (fst (get_version ''soul'' 7 None (Some ''agent-2'') ''t1'' db_example))"
    by (simp add: get_version_def Let_def registry_get_prompt_def vcs_get_version_def
                  branch_versions_def db_example_def)
  from t1 have a: "snd (list_versions vcs_example ''soul'' None None db_example) = db_example"
    by blast
  from t1 have b: "snd (get_version ''soul'' 1 None None ''t1'' db_example) = db_example"
    by blast
  from t2 miss have c: "snd (get_version ''soul'' 7 None (Some ''agent-2'') ''t1'' db_example)
                        = db_example"
    by blast
  from a b c ok miss show ?thesis by simp
qed

text \<open>
  Claim C2 as it is written fails: \<open>get_version\<close> with an agent id that has no
  subscription yet succeeds and leaves one more subscription row in the store.
\<close>

theorem get_version_writes_subscription:
  "fst (get_version ''soul'' 1 None (Some ''agent-2'') ''t1'' db_example)
     = Inr \<lparr>v_prompt_id = ''p1'', v_branch = ''main'', v_version = 1,
            v_content = [(''voice'', ''v1''), (''identity'', ''i1'')],
            v_message = ''first'', v_author = ''ann''\<rparr>
 \<and> prompt_subscriptions (snd (get_version ''soul'' 1 None (Some ''agent-2'') ''t1'' db_example))
     = prompt_subscriptions db_example @
       [\<lparr>sub_id = 2, sub_prompt_id = ''p1'', sub_agent_id = ''agent-2'',
         sub_subscribed_at = ''t1'', sub_last_pulled_at = ''t1''\<rparr>]
 \<and> stored (snd (get_version ''soul'' 1 None (Some ''agent-2'') ''t1'' db_example))
     \<noteq> stored db_example"
  by (simp add: get_version_def Let_def registry_get_prompt_def vcs_get_version_def
                branch_versions_def db_example_def auto_subscribe_def db_select_def
                db_insert_def fresh_id_def stored_def)

section \<open>Properties of the history\<close>

lemma vcs_history_length:
  "length (vcs_history vcs db pid br limit) \<le> nat limit"
proof -
  have "length (vcs_history vcs db pid br limit) \<le> nat (min limit (history_ceiling vcs))"
    by (simp add: vcs_history_def)
  also have "\<dots> \<le> nat limit" by (simp add: nat_mono)
  finally show ?thesis .
qed

lemma vcs_history_descending:
  "sorted_wrt (\<ge>) (map v_version (vcs_history vcs db pid br limit))"
proof -
  let ?xs = "branch_versions db pid br"
  have "sorted (map v_version (sort_key v_version ?xs))"
    by (rule sorted_sort_key)
  then have "sorted_wrt (\<ge>) (rev (map v_version (sort_key v_version ?xs)))"
    by (simp add: sorted_wrt_rev)
  then have "sorted_wrt (\<ge>) (take (nat (min limit (history_ceiling vcs)))
               (rev (map v_version (sort_key v_version ?xs))))"
    by (rule sorted_wrt_take)
  then show ?thesis
    by (simp add: vcs_history_def take_map rev_map)
qed

lemma vcs_history_subset:
  "set (vcs_history vcs db pid br limit) \<subseteq> set (branch_versions db pid br)"
proof -
  have "set (vcs_history vcs db pid br limit)
        \<subseteq> set (rev (sort_key v_version (branch_versions db pid br)))"
    unfolding vcs_history_def by (rule set_take_subset)
  then show ?thesis by simp
qed

text \<open>
  Claim C4, as amended. For every positive limit of at most 200 and every known prompt,
  \<open>list_versions\<close> accepts the request, leaves the store as it was, and returns at most
  \<open>limit\<close> versions of the branch, ordered by version descending. A limit above 200 is
  not clamped: the request is refused with a validation error.
\<close>

theorem list_versions_limit:
  "(0 < limit \<and> limit \<le> 200 \<and> registry_get_prompt db slug = Some prompt \<longrightarrow>
      (\<exists>vs. list_versions vcs slug branch_param (Some limit) db = (Inr vs, db)
          \<and> int (length vs) \<le> limit
          \<and> sorted_wrt (\<ge>) (map v_version vs)
          \<and> set vs \<subseteq> set (branch_versions db (p_id prompt)
                            (case branch_param of None \<Rightarrow> ''main'' | Some b \<Rightarrow> b))))
 \<and> (200 < limit \<longrightarrow>
      list_versions vcs slug branch_param (Some limit) db = (Inl RequestValidationError, db))"
proof (intro conjI impI)
  assume h: "0 < limit \<and> limit \<le> 200 \<and> registry_get_prompt db slug = Some prompt"
  let ?br = "case branch_param of None \<Rightarrow> ''main'' | Some b \<Rightarrow> b"
  let ?vs = "vcs_history vcs db (p_id prompt) ?br limit"
  from h have r: "list_versions vcs slug branch_param (Some limit) db = (Inr ?vs, db)"
    by (simp add: list_versions_def Let_def)
  from h vcs_history_length [of vcs db "p_id prompt" ?br limit]
  have l: "int (length ?vs) \<le> limit" by linarith
  from r l vcs_history_descending [of vcs db "p_id prompt" ?br limit]
       vcs_history_subset [of vcs db "p_id prompt" ?br limit]
  show "\<exists>vs. list_versions vcs slug branch_param (Some limit) db = (Inr vs, db)
          \<and> int (length vs) \<le> limit
          \<and> sorted_wrt (\<ge>) (map v_version vs)
          \<and> set vs \<subseteq> set (branch_versions db (p_id prompt) ?br)"
    by blast
next
  assume "200 < limit"
  then show "list_versions vcs slug branch_param (Some limit) db
             = (Inl RequestValidationError, db)"
    by (simp add: list_versions_def Let_def)
qed

theorem list_versions_limit_witness:
  "(0::int) < 200 \<and> (200::int) \<le> 200
 \<and> registry_get_prompt db_example ''soul'' = Some \<lparr>p_id = ''p1'', p_slug = ''soul''\<rparr>
 \<and> (\<exists>vs. list_versions vcs_example ''soul'' None (Some 200) db_example = (Inr vs, db_example)
        \<and> int (length vs) \<le> 200 \<and> sorted_wrt (\<ge>) (map v_version vs))
 \<and> list_versions vcs_example ''soul'' None (Some 201) db_example
     = (Inl RequestValidationError, db_example)"
proof -
  have g: "registry_get_prompt db_example ''soul'' = Some \<lparr>p_id = ''p1'', p_slug = ''soul''\<rparr>"
    by (simp add: registry_get_prompt_def db_example_def)
  note t1 = list_versions_limit [of 200 db_example "''soul''" "\<lparr>p_id = ''p1'', p_slug = ''soul''\<rparr>"
              vcs_example None]
  note t2 = list_versions_limit [of 201 db_example "''soul''" "\<lparr>p_id = ''p1'', p_slug = ''soul''\<rparr>"
              vcs_example None]
  from t1 g have a: "\<exists>vs. list_versions vcs_example ''soul'' None (Some 200) db_example
                          = (Inr vs, db_example)
        \<and> int (length vs) \<le> 200 \<and> sorted_wrt (\<ge>) (map v_version vs)"
    by auto
  from t2 have b: "list_versions vcs_example ''soul'' None (Some 201) db_example
     = (Inl RequestValidationError, db_example)"
    by simp
  from g a b show ?thesis by simp
qed

text \<open>
  Claim C4 as it is written fails: the positive limit 201, for a known prompt, is
  rejected as an error, and no history is returned.
\<close>

theorem list_versions_rejects_201:
  "(0::int) < 201
 \<and> registry_get_prompt db_example ''soul'' = Some \<lparr>p_id = ''p1'', p_slug = ''soul''\<rparr>
 \<and> fst (list_versions vcs_example ''soul'' (Some ''main'') (Some 201) db_example)
     = Inl RequestValidationError
 \<and> \<not> (\<exists>vs. fst (list_versions vcs_example ''soul'' (Some ''main'') (Some 201) db_example)
           = Inr vs)"
  by (simp add: list_versions_def Let_def registry_get_prompt_def db_example_def)

section \<open>Properties of the notification\<close>

lemma db_select_stored: "stored (snd (db_select db pid)) = stored db"
  by (simp add: db_select_def stored_def)

lemma notify_try_stored:
  "stored (snd (snd (notify_try pid slug old new cn prio gep db))) = stored db"
  by (simp add: notify_try_def Let_def split_beta db_select_stored split: sum.splits)

lemma notify_subscribers_stored:
  "stored (snd (snd (notify_subscribers pid slug old new cn prio gep db))) = stored db"
proof -
  obtain r eff db1 where t: "notify_try pid slug old new cn prio gep db = (r, eff, db1)"
    by (cases "notify_try pid slug old new cn prio gep db")
  from notify_try_stored [of pid slug old new cn prio gep db] t
  have "stored db1 = stored db" by simp
  with t show ?thesis
    by (simp add: notify_subscribers_def split: option.splits exn.splits)
qed

lemma notify_subscribers_quiet:
  assumes "fst (notify_try pid slug old new cn prio gep db) = None"
  shows "fst (notify_subscribers pid slug old new cn prio gep db) = None"
proof -
  obtain r eff db1 where t: "notify_try pid slug old new cn prio gep db = (r, eff, db1)"
    by (cases "notify_try pid slug old new cn prio gep db")
  with assms have "r = None" by simp
  with t show ?thesis by (simp add: notify_subscribers_def)
qed

lemma notify_subscribers_catches:
  assumes "fst (notify_try pid slug old new cn prio gep db) = Some (Exception e)"
  shows "fst (notify_subscribers pid slug old new cn prio gep db) = None
       \<and> logged (fst (snd (notify_subscribers pid slug old new cn prio gep db))) \<noteq> []
       \<and> last (logged (fst (snd (notify_subscribers pid slug old new cn prio gep db))))
           = LogWarning ''subscription.notify_failed'' e"
proof -
  obtain r eff db1 where t: "notify_try pid slug old new cn prio gep db = (r, eff, db1)"
    by (cases "notify_try pid slug old new cn prio gep db")
  with assms have "r = Some (Exception e)" by simp
  with t show ?thesis by (simp add: notify_subscribers_def)
qed

lemma notify_subscribers_lets_through:
  assumes "fst (notify_try pid slug old new cn prio gep db) = Some (BaseException b)"
  shows "fst (notify_subscribers pid slug old new cn prio gep db) = Some (BaseException b)
       \<and> fst (snd (notify_subscribers pid slug old new cn prio gep db))
           = fst (snd (notify_try pid slug old new cn prio gep db))"
proof -
  obtain r eff db1 where t: "notify_try pid slug old new cn prio gep db = (r, eff, db1)"
    by (cases "notify_try pid slug old new cn prio gep db")
  with assms have "r = Some (BaseException b)" by simp
  with t show ?thesis by (simp add: notify_subscribers_def)
qed

lemma publish_each_raised:
  "fst (publish_each pub mk slug new subs eff) = Some x \<Longrightarrow> \<exists>n ev. publish pub n ev = Some x"
proof (induction subs arbitrary: eff)
  case Nil
  then show ?case by simp
next
  case (Cons sub subs)
  show ?case
  proof (cases "publish pub (length (published eff)) (mk (sub_agent_id sub))")
    case None
    with Cons.prems Cons.IH show ?thesis by (simp add: Let_def)
  next
    case (Some y)
    with Cons.prems have "y = x" by (simp add: Let_def)
    with Some show ?thesis by blast
  qed
qed

lemma notify_try_raised:
  assumes "fst (notify_try pid slug old new cn prio gep db) = Some x"
  shows "gep = Inl x \<or> (\<exists>pub n ev. gep = Inr pub \<and> publish pub n ev = Some x)"
proof (cases gep)
  case (Inl y)
  with assms show ?thesis by (simp add: notify_try_def)
next
  case (Inr pub)
  with assms have "fst (publish_each pub (prompt_updated pid slug old new cn prio) slug new
                          (fst (db_select db pid)) no_effects) = Some x"
    by (simp add: notify_try_def Let_def split_beta split: if_splits)
  from publish_each_raised [OF this] Inr show ?thesis by blast
qed

lemma notify_subscribers_raised:
  assumes "fst (notify_subscribers pid slug old new cn prio gep db) = Some x"
  shows "\<exists>b. x = BaseException b
           \<and> fst (notify_try pid slug old new cn prio gep db) = Some (BaseException b)"
proof -
  obtain r eff db1 where t: "notify_try pid slug old new cn prio gep db = (r, eff, db1)"
    by (cases "notify_try pid slug old new cn prio gep db")
  with assms show ?thesis
    by (auto simp: notify_subscribers_def split: option.splits exn.splits)
qed

lemma notify_subscribers_benign:
  assumes "raises_exceptions_only gep"
  shows "fst (notify_subscribers pid slug old new cn prio gep db) = None"
proof (cases "fst (notify_subscribers pid slug old new cn prio gep db)")
  case None
  then show ?thesis .
next
  case (Some x)
  from notify_subscribers_raised [OF Some] obtain b where
    "fst (notify_try pid slug old new cn prio gep db) = Some (BaseException b)" by blast
  from notify_try_raised [OF this] assms have False
    by (auto simp: raises_exceptions_only_def)
  then show ?thesis ..
qed

text \<open>
  Claim C7, as amended. For every commit that succeeds (the prompt is known and
  \<open>vcs_commit\<close> returns the new version), the store keeps the tables the commit left,
  whatever the notification does. When no exception leaves the body of the notification,
  or the one that leaves it is an \<open>Exception\<close> (raised by \<open>get_event_publisher\<close> or by a
  \<open>publish\<close>), \<open>create_version\<close> answers with the new version; the \<open>Exception\<close> is
  caught, and the last record logged is the warning \<open>subscription.notify_failed\<close> with
  its text. An exception that is not an \<open>Exception\<close> (a cancellation while \<open>publish\<close> is
  awaited) is not caught: it is the answer of \<open>create_version\<close>, after the commit, and the
  log has what the body logged before it and no warning for it.
\<close>

theorem create_version_contains_notify_failure:
  fixes vcs :: vcs and db :: db and prompt :: prompt_row and data :: version_create
  defines "old_version \<equiv>
             (case vcs_history vcs db (p_id prompt) (vc_branch data) 1 of
                [] \<Rightarrow> 0 | h # _ \<Rightarrow> v_version h)"
      and "priority \<equiv>
             (case vc_priority data of
                None \<Rightarrow> ''normal'' | Some p \<Rightarrow> if p = [] then ''normal'' else p)"
  assumes found: "registry_get_prompt db slug = Some prompt"
      and commit: "vcs_commit db (p_id prompt) (vc_content data) (vc_message data)
                     (vc_author data) (vc_branch data) = Inr (version, db1)"
  shows "\<exists>answer db2 eff.
           create_version vcs get_event_publisher slug data db = (answer, db2, eff)
         \<and> stored db2 = stored db1
         \<and> (fst (notify_try (p_id prompt) slug old_version (v_version version)
                   (vc_message data) priority get_event_publisher db1) = None
              \<longrightarrow> answer = Inr version)
         \<and> (\<forall>e. fst (notify_try (p_id prompt) slug old_version (v_version version)
                        (vc_message data) priority get_event_publisher db1)
                   = Some (Exception e)
                \<longrightarrow> answer = Inr version \<and> logged eff \<noteq> []
                  \<and> last (logged eff) = LogWarning ''subscription.notify_failed'' e)
         \<and> (\<forall>b. fst (notify_try (p_id prompt) slug old_version (v_version version)
                        (vc_message data) priority get_event_publisher db1)
                   = Some (BaseException b)
                \<longrightarrow> answer = Inl (Uncaught (BaseException b))
                  \<and> eff = fst (snd (notify_try (p_id prompt) slug old_version
                                       (v_version version) (vc_message data) priority
                                       get_event_publisher db1)))"
proof -
  let ?n = "notify_subscribers (p_id prompt) slug old_version (v_version version)
              (vc_message data) priority get_event_publisher db1"
  let ?answer = "case fst ?n of Some x \<Rightarrow> Inl (Uncaught x) | None \<Rightarrow> Inr version"
  from found commit
  have cv: "create_version vcs get_event_publisher slug data db
            = (?answer, snd (snd ?n), fst (snd ?n))"
    by (simp add: create_version_def Let_def split_beta old_version_def priority_def
             split: option.splits)
  have st: "stored (snd (snd ?n)) = stored db1"
    by (rule notify_subscribers_stored)
  let ?t = "notify_try (p_id prompt) slug old_version (v_version version)
              (vc_message data) priority get_event_publisher db1"
  have quiet: "fst ?t = None \<longrightarrow> ?answer = Inr version"
    by (simp add: notify_subscribers_quiet)
  have caught: "\<forall>e. fst ?t = Some (Exception e)
                  \<longrightarrow> ?answer = Inr version \<and> logged (fst (snd ?n)) \<noteq> []
                    \<and> last (logged (fst (snd ?n)))
                        = LogWarning ''subscription.notify_failed'' e"
  proof (intro allI impI)
    fix e assume "fst ?t = Some (Exception e)"
    from notify_subscribers_catches [OF this]
    show "?answer = Inr version \<and> logged (fst (snd ?n)) \<noteq> []
          \<and> last (logged (fst (snd ?n))) = LogWarning ''subscription.notify_failed'' e"
      by simp
  qed
  have through: "\<forall>b. fst ?t = Some (BaseException b)
                   \<longrightarrow> ?answer = Inl (Uncaught (BaseException b))
                     \<and> fst (snd ?n) = fst (snd ?t)"
  proof (intro allI impI)
    fix b assume "fst ?t = Some (BaseException b)"
    from notify_subscribers_lets_through [OF this]
    show "?answer = Inl (Uncaught (BaseException b)) \<and> fst (snd ?n) = fst (snd ?t)"
      by simp
  qed
  show ?thesis
  proof (intro exI conjI)
    show "create_version vcs get_event_publisher slug data db
          = (?answer, snd (snd ?n), fst (snd ?n))" by (rule cv)
    show "stored (snd (snd ?n)) = stored db1" by (rule st)
    show "fst ?t = None \<longrightarrow> ?answer = Inr version" by (rule quiet)
    show "\<forall>e. fst ?t = Some (Exception e)
            \<longrightarrow> ?answer = Inr version \<and> logged (fst (snd ?n)) \<noteq> []
              \<and> last (logged (fst (snd ?n))) = LogWarning ''subscription.notify_failed'' e"
      by (rule caught)
    show "\<forall>b. fst ?t = Some (BaseException b)
            \<longrightarrow> ?answer = Inl (Uncaught (BaseException b))
              \<and> fst (snd ?n) = fst (snd ?t)"
      by (rule through)
  qed
qed

theorem create_version_contains_notify_failure_witness:
  "registry_get_prompt db_example ''soul'' = Some \<lparr>p_id = ''p1'', p_slug = ''soul''\<rparr>
 \<and> fst (create_version vcs_example (Inr publisher_down) ''soul'' data_example db_example)
     = Inr \<lparr>v_prompt_id = ''p1'', v_branch = ''main'', v_version = 2,
            v_content = [(''voice'', ''v2''), (''identity'', ''i1'')],
            v_message = ''second'', v_author = ''bob''\<rparr>
 \<and> logged (snd (snd (create_version vcs_example (Inr publisher_down) ''soul'' data_example
                       db_example)))
     = [LogWarning ''subscription.notify_failed'' ''connection lost'']
 \<and> fst (create_version vcs_example (Inl (Exception ''no module'')) ''soul'' data_example
          db_example)
     = Inr \<lparr>v_prompt_id = ''p1'', v_branch = ''main'', v_version = 2,
            v_content = [(''voice'', ''v2''), (''identity'', ''i1'')],
            v_message = ''second'', v_author = ''bob''\<rparr>
 \<and> fst (create_version vcs_example (Inr (publisher_down\<lparr>connected := False\<rparr>)) ''soul''
          data_example db_example)
     = Inr \<lparr>v_prompt_id = ''p1'', v_branch = ''main'', v_version = 2,
            v_content = [(''voice'', ''v2''), (''identity'', ''i1'')],
            v_message = ''second'', v_author = ''bob''\<rparr>
 \<and> fst (create_version vcs_example (Inr publisher_cancelled) ''soul'' data_example db_example)
     = Inl (Uncaught (BaseException ''CancelledError''))"
proof -
  let ?p = "\<lparr>p_id = ''p1'', p_slug = ''soul''\<rparr>"
  let ?v = "\<lparr>v_prompt_id = ''p1'', v_branch = ''main'', v_version = 2,
            v_content = [(''voice'', ''v2''), (''identity'', ''i1'')],
            v_message = ''second'', v_author = ''bob''\<rparr>"
  let ?db1 = "db_example\<lparr>prompt_versions := prompt_versions db_example @ [?v]\<rparr>"
  have g: "registry_get_prompt db_example ''soul'' = Some ?p"
    by (simp add: registry_get_prompt_def db_example_def)
  have c: "vcs_commit db_example (p_id ?p) (vc_content data_example) (vc_message data_example)
             (vc_author data_example) (vc_branch data_example) = Inr (?v, ?db1)"
    by (simp add: vcs_commit_def vcs_head_def branch_versions_def db_example_def
                  data_example_def Let_def)
  have r1: "fst (notify_try ''p1'' ''soul'' old 2 ''second'' ''normal'' (Inr publisher_down) ?db1)
            = Some (Exception ''connection lost'')" for old
    by (simp add: notify_try_def publisher_down_def db_select_def db_example_def Let_def
                  no_effects_def)
  have r2: "fst (notify_try ''p1'' ''soul'' old 2 ''second'' ''normal''
                   (Inl (Exception ''no module'')) ?db1)
            = Some (Exception ''no module'')" for old
    by (simp add: notify_try_def)
  from create_version_contains_notify_failure [OF g c, of vcs_example "Inr publisher_down"] r1
  have a: "fst (create_version vcs_example (Inr publisher_down) ''soul'' data_example db_example)
           = Inr ?v"
    by (auto simp: data_example_def)
  from create_version_contains_notify_failure
         [OF g c, of vcs_example "Inl (Exception ''no module'')"] r2
  have b: "fst (create_version vcs_example (Inl (Exception ''no module'')) ''soul''
                  data_example db_example)
           = Inr ?v"
    by (auto simp: data_example_def)
  have r3: "fst (notify_try ''p1'' ''soul'' old 2 ''second'' ''normal''
                   (Inr (publisher_down\<lparr>connected := False\<rparr>)) ?db1) = None" for old
    by (simp add: notify_try_def)
  have r4: "fst (notify_try ''p1'' ''soul'' old 2 ''second'' ''normal''
                   (Inr publisher_cancelled) ?db1)
            = Some (BaseException ''CancelledError'')" for old
    by (simp add: notify_try_def publisher_cancelled_def db_select_def db_example_def Let_def
                  no_effects_def)
  from create_version_contains_notify_failure
         [OF g c, of vcs_example "Inr (publisher_down\<lparr>connected := False\<rparr>)"] r3
  have q: "fst (create_version vcs_example (Inr (publisher_down\<lparr>connected := False\<rparr>))
                  ''soul'' data_example db_example)
           = Inr ?v"
    by (auto simp: data_example_def)
  from create_version_contains_notify_failure
         [OF g c, of vcs_example "Inr publisher_cancelled"] r4
  have x: "fst (create_version vcs_example (Inr publisher_cancelled) ''soul'' data_example
                  db_example)
           = Inl (Uncaught (BaseException ''CancelledError''))"
    by (auto simp: data_example_def)
  have l: "logged (snd (snd (create_version vcs_example (Inr publisher_down) ''soul''
                               data_example db_example)))
           = [LogWarning ''subscription.notify_failed'' ''connection lost'']"
    by (simp add: create_version_def registry_get_prompt_def vcs_commit_def vcs_head_def
                  branch_versions_def db_example_def data_example_def Let_def
                  notify_subscribers_def notify_try_def publisher_down_def db_select_def
                  no_effects_def)
  from g a b l q x show ?thesis by simp
qed

text \<open>
  Claim C7 as it is written fails: the commit of version 2 succeeds and is in the store,
  the publisher is cancelled while \<open>publish\<close> is awaited, and \<open>create_version\<close> answers
  with that exception instead of the new version; nothing is logged.
\<close>

theorem create_version_cancelled_after_commit:
  "registry_get_prompt db_example ''soul'' = Some \<lparr>p_id = ''p1'', p_slug = ''soul''\<rparr>
 \<and> vcs_commit db_example ''p1'' (vc_content data_example) (vc_message data_example)
      (vc_author data_example) (vc_branch data_example)
     = Inr (\<lparr>v_prompt_id = ''p1'', v_branch = ''main'', v_version = 2,
             v_content = [(''voice'', ''v2''), (''identity'', ''i1'')],
             v_message = ''second'', v_author = ''bob''\<rparr>,
            db_example\<lparr>prompt_versions := prompt_versions db_example @
              [\<lparr>v_prompt_id = ''p1'', v_branch = ''main'', v_version = 2,
                v_content = [(''voice'', ''v2''), (''identity'', ''i1'')],
                v_message = ''second'', v_author = ''bob''\<rparr>]\<rparr>)
 \<and> fst (create_version vcs_example (Inr publisher_cancelled) ''soul'' data_example db_example)
     = Inl (Uncaught (BaseException ''CancelledError''))
 \<and> map v_version (prompt_versions (fst (snd
       (create_version vcs_example (Inr publisher_cancelled) ''soul'' data_example db_example))))
     = [1, 2]
 \<and> logged (snd (snd (create_version vcs_example (Inr publisher_cancelled) ''soul''
                       data_example db_example))) = []"
  by (simp add: create_version_def registry_get_prompt_def vcs_commit_def vcs_head_def
                branch_versions_def db_example_def data_example_def Let_def
                notify_subscribers_def notify_try_def publisher_cancelled_def db_select_def
                no_effects_def)

section \<open>Properties of the commit\<close>

lemma vcs_head_eq:
  "vcs_head db pid br =
     (if branch_versions db pid br = [] then 0
      else Max (v_version ` set (branch_versions db pid br)))"
  by (simp add: vcs_head_def split: list.splits)

lemma branch_versions_append:
  "prompt_versions db1 = prompt_versions db @ [v] \<Longrightarrow>
   branch_versions db1 pid br =
     branch_versions db pid br @ (if v_prompt_id v = pid \<and> v_branch v = br then [v] else [])"
  by (simp add: branch_versions_def)

lemma vcs_head_append:
  assumes app: "prompt_versions db1 = prompt_versions db @ [v]"
      and num: "v_version v = vcs_head db (v_prompt_id v) (v_branch v) + 1"
  shows "vcs_head db1 pid br =
           (if pid = v_prompt_id v \<and> br = v_branch v then vcs_head db pid br + 1
            else vcs_head db pid br)"
proof (cases "pid = v_prompt_id v \<and> br = v_branch v")
  case False
  with branch_versions_append [OF app, of pid br]
  have "branch_versions db1 pid br = branch_versions db pid br" by auto
  then have "vcs_head db1 pid br = vcs_head db pid br" by (simp add: vcs_head_eq)
  with False show ?thesis by auto
next
  case True
  let ?xs = "branch_versions db pid br"
  from True branch_versions_append [OF app, of pid br]
  have b1: "branch_versions db1 pid br = ?xs @ [v]" by simp
  show ?thesis
  proof (cases "?xs = []")
    case e: True
    with b1 num True show ?thesis by (simp add: vcs_head_eq)
  next
    case ne: False
    let ?S = "v_version ` set ?xs"
    from ne have fin: "finite ?S" and nonempty: "?S \<noteq> {}" by simp_all
    from ne num True have vv: "v_version v = Max ?S + 1" by (simp add: vcs_head_eq)
    from b1 have "vcs_head db1 pid br = Max (insert (v_version v) ?S)"
      by (simp add: vcs_head_eq)
    also from fin nonempty have "\<dots> = max (v_version v) (Max ?S)" by (rule Max_insert)
    also from vv have "\<dots> = Max ?S + 1" by simp
    finally show ?thesis using ne True by (simp add: vcs_head_eq)
  qed
qed

lemma vcs_commit_Inr:
  assumes "vcs_commit db pid c m a br = Inr (v, db1)"
  shows "c \<noteq> [] \<and> v_prompt_id v = pid \<and> v_branch v = br
       \<and> v_version v = vcs_head db pid br + 1 \<and> v_content v = c \<and> v_author v = a
       \<and> v_message v = m
       \<and> db1 = db\<lparr>prompt_versions := prompt_versions db @ [v]\<rparr>"
  using assms by (auto simp: vcs_commit_def Let_def split: if_splits)

lemma vcs_commit_nonempty:
  "c \<noteq> [] \<Longrightarrow> \<exists>v db1. vcs_commit db pid c m a br = Inr (v, db1)"
  by (simp add: vcs_commit_def Let_def)

lemma vcs_head_stored:
  "stored db1 = stored db \<Longrightarrow> vcs_head db1 pid br = vcs_head db pid br"
  by (simp add: stored_def vcs_head_def branch_versions_def)

lemma stored_append:
  "stored db2 = stored (db\<lparr>prompt_versions := prompt_versions db @ [v]\<rparr>) \<Longrightarrow>
   prompt_versions db2 = prompt_versions db @ [v]"
  by (simp add: stored_def)

lemma create_version_committed:
  assumes found: "registry_get_prompt db slug = Some prompt"
      and commit: "vcs_commit db (p_id prompt) (vc_content data) (vc_message data)
                     (vc_author data) (vc_branch data) = Inr (v, dbc)"
  shows "\<exists>answer db1 eff.
           create_version vcs gep slug data db = (answer, db1, eff)
         \<and> (answer = Inr v \<or> (\<exists>b. answer = Inl (Uncaught (BaseException b))))
         \<and> (raises_exceptions_only gep \<longrightarrow> answer = Inr v)
         \<and> prompt_versions db1 = prompt_versions db @ [v]"
proof -
  note c = vcs_commit_Inr [OF commit]
  let ?n = "notify_subscribers (p_id prompt) slug
              (case vcs_history vcs db (p_id prompt) (vc_branch data) 1 of
                 [] \<Rightarrow> 0 | h # _ \<Rightarrow> v_version h)
              (v_version v) (vc_message data)
              (case vc_priority data of
                 None \<Rightarrow> ''normal'' | Some p \<Rightarrow> if p = [] then ''normal'' else p)
              gep dbc"
  let ?answer = "case fst ?n of Some x \<Rightarrow> Inl (Uncaught x) | None \<Rightarrow> Inr v"
  from found commit
  have "create_version vcs gep slug data db
        = (case fst ?n of
             Some x \<Rightarrow> (Inl (Uncaught x), snd (snd ?n), fst (snd ?n))
           | None \<Rightarrow> (Inr v, snd (snd ?n), fst (snd ?n)))"
    by (simp add: create_version_def Let_def split_beta cong del: option.case_cong_weak)
  then have cv: "create_version vcs gep slug data db = (?answer, snd (snd ?n), fst (snd ?n))"
    by (cases "fst ?n"; simp)
  have "stored (snd (snd ?n)) = stored dbc" by (rule notify_subscribers_stored)
  with c have app: "prompt_versions (snd (snd ?n)) = prompt_versions db @ [v]"
    by (simp add: stored_append)
  have shape: "?answer = Inr v \<or> (\<exists>b. ?answer = Inl (Uncaught (BaseException b)))"
  proof (cases "fst ?n")
    case None
    then show ?thesis by simp
  next
    case (Some x)
    from notify_subscribers_raised [OF Some] Some show ?thesis by auto
  qed
  have benign: "raises_exceptions_only gep \<longrightarrow> ?answer = Inr v"
    by (simp add: notify_subscribers_benign)
  show ?thesis
  proof (intro exI conjI)
    show "create_version vcs gep slug data db = (?answer, snd (snd ?n), fst (snd ?n))"
      by (rule cv)
    show "?answer = Inr v \<or> (\<exists>b. ?answer = Inl (Uncaught (BaseException b)))"
      by (rule shape)
    show "raises_exceptions_only gep \<longrightarrow> ?answer = Inr v" by (rule benign)
    show "prompt_versions (snd (snd ?n)) = prompt_versions db @ [v]" by (rule app)
  qed
qed

lemma create_version_cases:
  assumes "create_version vcs gep slug data db = (answer, db1, eff)"
  shows "(\<exists>e. answer = Inl e \<and> \<not> uncaught answer \<and> db1 = db)
       \<or> (\<exists>v. (answer = Inr v \<or> (\<exists>b. answer = Inl (Uncaught (BaseException b))))
            \<and> (raises_exceptions_only gep \<longrightarrow> answer = Inr v)
            \<and> v_version v = vcs_head db (v_prompt_id v) (v_branch v) + 1
            \<and> prompt_versions db1 = prompt_versions db @ [v])"
proof (cases "registry_get_prompt db slug")
  case None
  with assms show ?thesis by (auto simp: create_version_def uncaught_def)
next
  case (Some prompt)
  show ?thesis
  proof (cases "vcs_commit db (p_id prompt) (vc_content data) (vc_message data)
                  (vc_author data) (vc_branch data)")
    case (Inl e)
    then have "e = InvalidContent"
      by (simp add: vcs_commit_def Let_def split: if_splits)
    with Some Inl assms show ?thesis
      by (auto simp: create_version_def Let_def uncaught_def)
  next
    case (Inr r)
    obtain v dbc where r: "r = (v, dbc)" by (cases r)
    from vcs_commit_Inr [OF Inr [unfolded r]]
    have num: "v_version v = vcs_head db (v_prompt_id v) (v_branch v) + 1" by simp
    from create_version_committed [OF Some Inr [unfolded r], of vcs gep] assms
    have "(answer = Inr v \<or> (\<exists>b. answer = Inl (Uncaught (BaseException b))))
          \<and> (raises_exceptions_only gep \<longrightarrow> answer = Inr v)
          \<and> prompt_versions db1 = prompt_versions db @ [v]"
      by auto
    with num show ?thesis by blast
  qed
qed

lemma committed_on_Cons:
  "committed_on pid br (answer # answers) =
     (case answer of
        Inl e \<Rightarrow> committed_on pid br answers
      | Inr v \<Rightarrow> if v_prompt_id v = pid \<and> v_branch v = br
                 then v_version v # committed_on pid br answers
                 else committed_on pid br answers)"
  by (simp add: committed_on_def split: sum.splits)

lemma create_versions_Cons:
  "create_version vcs gep slug data db = (answer, db1, eff) \<Longrightarrow>
   create_versions vcs gep ((slug, data) # reqs) db
     = (answer # fst (create_versions vcs gep reqs db1),
        snd (create_versions vcs gep reqs db1))"
  by (simp add: split_beta)

lemma committed_on_run:
  "\<exists>n. map v_version (branch_versions (snd (create_versions vcs gep reqs db)) pid br)
          = map v_version (branch_versions db pid br)
            @ [vcs_head db pid br + 1 .. vcs_head db pid br + int n]
      \<and> (list_all (\<lambda>a. \<not> uncaught a) (fst (create_versions vcs gep reqs db)) \<longrightarrow>
           committed_on pid br (fst (create_versions vcs gep reqs db))
             = [vcs_head db pid br + 1 .. vcs_head db pid br + int n])"
proof (induction reqs arbitrary: db)
  case Nil
  have "map v_version (branch_versions (snd (create_versions vcs gep [] db)) pid br)
          = map v_version (branch_versions db pid br)
            @ [vcs_head db pid br + 1 .. vcs_head db pid br + int 0]
      \<and> committed_on pid br (fst (create_versions vcs gep [] db))
          = [vcs_head db pid br + 1 .. vcs_head db pid br + int 0]"
    by (simp add: committed_on_def)
  then show ?case by blast
next
  case (Cons req reqs)
  obtain slug data where req: "req = (slug, data)" by (cases req)
  obtain answer db1 eff where cv: "create_version vcs gep slug data db = (answer, db1, eff)"
    by (cases "create_version vcs gep slug data db")
  let ?rest = "create_versions vcs gep reqs db1"
  from Cons.IH [of db1] obtain n where
    ih1: "map v_version (branch_versions (snd ?rest) pid br)
          = map v_version (branch_versions db1 pid br)
            @ [vcs_head db1 pid br + 1 .. vcs_head db1 pid br + int n]"
    and ih2: "list_all (\<lambda>a. \<not> uncaught a) (fst ?rest) \<longrightarrow>
              committed_on pid br (fst ?rest)
                = [vcs_head db1 pid br + 1 .. vcs_head db1 pid br + int n]"
    by blast
  note run = create_versions_Cons [OF cv, of reqs, folded req]
  let ?h = "vcs_head db pid br"
  from create_version_cases [OF cv] show ?case
  proof
    assume "\<exists>e. answer = Inl e \<and> \<not> uncaught answer \<and> db1 = db"
    then obtain e where a: "answer = Inl e" and u: "\<not> uncaught answer" and d: "db1 = db"
      by blast
    from run ih1 ih2 a u d
    have "map v_version (branch_versions (snd (create_versions vcs gep (req # reqs) db)) pid br)
          = map v_version (branch_versions db pid br) @ [?h + 1 .. ?h + int n]
      \<and> (list_all (\<lambda>a. \<not> uncaught a) (fst (create_versions vcs gep (req # reqs) db)) \<longrightarrow>
           committed_on pid br (fst (create_versions vcs gep (req # reqs) db))
             = [?h + 1 .. ?h + int n])"
      by (simp add: committed_on_Cons)
    then show ?thesis by blast
  next
    assume "\<exists>v. (answer = Inr v \<or> (\<exists>b. answer = Inl (Uncaught (BaseException b))))
            \<and> (raises_exceptions_only gep \<longrightarrow> answer = Inr v)
            \<and> v_version v = vcs_head db (v_prompt_id v) (v_branch v) + 1
            \<and> prompt_versions db1 = prompt_versions db @ [v]"
    then obtain v :: version_row where
          a: "answer = Inr v \<or> (\<exists>b. answer = Inl (Uncaught (BaseException b)))"
      and num: "v_version v = vcs_head db (v_prompt_id v) (v_branch v) + 1"
      and app: "prompt_versions db1 = prompt_versions db @ [v]" by blast
    from a have au: "\<not> uncaught answer \<longrightarrow> answer = Inr v"
      by (auto simp: uncaught_def)
    note hd1 = vcs_head_append [OF app num, of pid br]
    note bv1 = branch_versions_append [OF app, of pid br]
    show ?thesis
    proof (cases "v_prompt_id v = pid \<and> v_branch v = br")
      case False
      with hd1 have h1: "vcs_head db1 pid br = ?h" by auto
      from False bv1 have b1: "branch_versions db1 pid br = branch_versions db pid br" by auto
      from a False have c1: "committed_on pid br (answer # fst ?rest)
                             = committed_on pid br (fst ?rest)"
        by (auto simp: committed_on_Cons)
      from run ih1 ih2 h1 b1 c1
      have "map v_version (branch_versions (snd (create_versions vcs gep (req # reqs) db)) pid br)
            = map v_version (branch_versions db pid br) @ [?h + 1 .. ?h + int n]
        \<and> (list_all (\<lambda>a. \<not> uncaught a) (fst (create_versions vcs gep (req # reqs) db)) \<longrightarrow>
             committed_on pid br (fst (create_versions vcs gep (req # reqs) db))
               = [?h + 1 .. ?h + int n])"
        by simp
      then show ?thesis by blast
    next
      case True
      from True hd1 have h1: "vcs_head db1 pid br = ?h + 1" by auto
      from True num have vv: "v_version v = ?h + 1" by auto
      from True bv1 have b1: "branch_versions db1 pid br = branch_versions db pid br @ [v]"
        by auto
      have up: "(?h + 1) # [?h + 1 + 1 .. ?h + 1 + int n] = [?h + 1 .. ?h + int (Suc n)]"
      proof -
        have e: "?h + int (Suc n) = ?h + 1 + int n" by simp
        have "[?h + 1 .. ?h + 1 + int n] = (?h + 1) # [?h + 1 + 1 .. ?h + 1 + int n]"
          by (rule upto_rec1) simp
        then show ?thesis unfolding e by (rule sym)
      qed
      from run ih1 h1 b1 vv
      have s1: "map v_version (branch_versions (snd (create_versions vcs gep (req # reqs) db))
                                pid br)
                = map v_version (branch_versions db pid br)
                  @ ((?h + 1) # [?h + 1 + 1 .. ?h + 1 + int n])"
        by simp
      have s2: "list_all (\<lambda>a. \<not> uncaught a) (fst (create_versions vcs gep (req # reqs) db)) \<longrightarrow>
                committed_on pid br (fst (create_versions vcs gep (req # reqs) db))
                  = (?h + 1) # [?h + 1 + 1 .. ?h + 1 + int n]"
      proof
        assume "list_all (\<lambda>a. \<not> uncaught a) (fst (create_versions vcs gep (req # reqs) db))"
        with run have u: "\<not> uncaught answer"
          and r: "list_all (\<lambda>a. \<not> uncaught a) (fst ?rest)" by simp_all
        from u au have "answer = Inr v" by simp
        with run True vv ih2 r h1
        show "committed_on pid br (fst (create_versions vcs gep (req # reqs) db))
                = (?h + 1) # [?h + 1 + 1 .. ?h + 1 + int n]"
          by (simp add: committed_on_Cons)
      qed
      from s1 s2 show ?thesis unfolding up by blast
    qed
  qed
qed

lemma create_versions_benign:
  "raises_exceptions_only gep \<Longrightarrow>
   list_all (\<lambda>a. \<not> uncaught a) (fst (create_versions vcs gep reqs db))"
proof (induction reqs arbitrary: db)
  case Nil
  then show ?case by simp
next
  case (Cons req reqs)
  obtain slug data where req: "req = (slug, data)" by (cases req)
  obtain answer db1 eff where cv: "create_version vcs gep slug data db = (answer, db1, eff)"
    by (cases "create_version vcs gep slug data db")
  from create_version_cases [OF cv] Cons.prems have "\<not> uncaught answer"
    by (auto simp: uncaught_def)
  with Cons.IH [OF Cons.prems, of db1] create_versions_Cons [OF cv, of reqs]
  show ?case by (simp add: req)
qed

lemma sort_key_eq_Nil: "(sort_key f xs = []) = (xs = [])"
proof -
  have "length (sort_key f xs) = length xs" by simp
  then show ?thesis by (metis length_0_conv)
qed

lemma sorted_le_last: "sorted ys \<Longrightarrow> y \<in> set ys \<Longrightarrow> y \<le> last ys"
proof (induction ys)
  case Nil
  then show ?case by simp
next
  case (Cons a ys)
  show ?case
  proof (cases "ys = []")
    case True
    with Cons.prems show ?thesis by simp
  next
    case False
    then have "last ys \<in> set ys" by (rule last_in_set)
    with Cons False show ?thesis by auto
  qed
qed

lemma last_sort_key_Max:
  assumes "xs \<noteq> []"
  shows "f (last (sort_key f xs)) = Max (f ` set xs)"
proof -
  let ?ys = "map f (sort_key f xs)"
  from assms have ne: "?ys \<noteq> []" by (simp add: sort_key_eq_Nil)
  have s: "sorted ?ys" by (rule sorted_sort_key)
  have set_eq: "set ?ys = f ` set xs" by simp
  from assms have l: "last ?ys = f (last (sort_key f xs))"
    by (simp add: last_map sort_key_eq_Nil)
  have "Max (set ?ys) = last ?ys"
  proof (rule Max_eqI)
    show "finite (set ?ys)" by simp
    show "\<And>y. y \<in> set ?ys \<Longrightarrow> y \<le> last ?ys" using s by (rule sorted_le_last)
    show "last ?ys \<in> set ?ys" using ne by (rule last_in_set)
  qed
  with l set_eq show ?thesis by simp
qed

lemma history_head:
  assumes "1 \<le> history_ceiling vcs"
  shows "(case vcs_history vcs db pid br 1 of [] \<Rightarrow> 0 | h # _ \<Rightarrow> v_version h)
         = vcs_head db pid br"
proof (cases "branch_versions db pid br = []")
  case True
  then show ?thesis by (simp add: vcs_history_def vcs_head_eq)
next
  case False
  let ?s = "sort_key v_version (branch_versions db pid br)"
  from False have ne: "rev ?s \<noteq> []" by (simp add: sort_key_eq_Nil)
  from assms have "nat (min 1 (history_ceiling vcs)) = Suc 0" by simp
  then have "vcs_history vcs db pid br 1 = take (Suc 0) (rev ?s)"
    by (simp add: vcs_history_def)
  also from ne have "\<dots> = [hd (rev ?s)]" by (cases "rev ?s") simp_all
  also from ne have "hd (rev ?s) = last ?s" by (simp add: hd_rev)
  finally have "vcs_history vcs db pid br 1 = [last ?s]" .
  with False show ?thesis
    by (simp add: last_sort_key_Max vcs_head_eq)
qed
text \<open>
  Claim C3. For every (prompt, branch): a commit of a non-empty content to a known prompt
  is made and gives the new version the number head + 1, head being the highest version
  of the branch, 0 without history (it is also what \<open>create_version\<close> reads from the
  history as the old version, the ceiling of the history being at least 1); the head of
  that branch is then the new number and every other head is as before; the answer is the
  new version, unless an exception that is not an \<open>Exception\<close> left the notification
  after the commit, which a publisher that raises \<open>Exception\<close>s only excludes. In a run
  of commits, the history of a (prompt, branch) after the run is its history before
  followed by versions numbered head + 1, head + 2, ... with no gap and no repeat,
  whatever is committed to other prompts and branches in between; and when no answer of
  the run is such an exception, the numbers in the successful answers for that
  (prompt, branch) are, in order, head + 1, head + 2, ... up to head plus their count.
\<close>

theorem create_version_numbering:
  "(registry_get_prompt db slug = Some prompt \<and> vc_content data \<noteq> [] \<longrightarrow>
      (\<exists>answer v db1 eff.
          create_version vcs get_event_publisher slug data db = (answer, db1, eff)
        \<and> (answer = Inr v \<or> (\<exists>b. answer = Inl (Uncaught (BaseException b))))
        \<and> (raises_exceptions_only get_event_publisher \<longrightarrow> answer = Inr v)
        \<and> v_prompt_id v = p_id prompt \<and> v_branch v = vc_branch data
        \<and> v_version v = vcs_head db (p_id prompt) (vc_branch data) + 1
        \<and> prompt_versions db1 = prompt_versions db @ [v]
        \<and> vcs_head db1 pid br =
            (if pid = p_id prompt \<and> br = vc_branch data then vcs_head db pid br + 1
             else vcs_head db pid br)))
 \<and> (1 \<le> history_ceiling vcs \<longrightarrow>
      (case vcs_history vcs db pid br 1 of [] \<Rightarrow> 0 | h # _ \<Rightarrow> v_version h)
        = vcs_head db pid br)
 \<and> map v_version
      (branch_versions (snd (create_versions vcs get_event_publisher requests db)) pid br)
     = map v_version (branch_versions db pid br)
       @ [vcs_head db pid br + 1 ..
          vcs_head db pid br
            + int (length (branch_versions
                             (snd (create_versions vcs get_event_publisher requests db))
                             pid br)
                   - length (branch_versions db pid br))]
 \<and> (list_all (\<lambda>a. \<not> uncaught a)
       (fst (create_versions vcs get_event_publisher requests db)) \<longrightarrow>
     committed_on pid br (fst (create_versions vcs get_event_publisher requests db))
       = [vcs_head db pid br + 1 ..
          vcs_head db pid br
            + int (length (committed_on pid br
                             (fst (create_versions vcs get_event_publisher requests db))))])
 \<and> (raises_exceptions_only get_event_publisher \<longrightarrow>
     list_all (\<lambda>a. \<not> uncaught a)
       (fst (create_versions vcs get_event_publisher requests db)))"
proof (intro conjI impI)
  assume h: "registry_get_prompt db slug = Some prompt \<and> vc_content data \<noteq> []"
  then obtain v dbc where c: "vcs_commit db (p_id prompt) (vc_content data) (vc_message data)
                                (vc_author data) (vc_branch data) = Inr (v, dbc)"
    using vcs_commit_nonempty by blast
  note ci = vcs_commit_Inr [OF c]
  from h have found: "registry_get_prompt db slug = Some prompt" by simp
  from create_version_committed [OF found c, of vcs get_event_publisher]
  obtain answer db1 eff where
        cv: "create_version vcs get_event_publisher slug data db = (answer, db1, eff)"
    and shape: "answer = Inr v \<or> (\<exists>b. answer = Inl (Uncaught (BaseException b)))"
    and benign: "raises_exceptions_only get_event_publisher \<longrightarrow> answer = Inr v"
    and app: "prompt_versions db1 = prompt_versions db @ [v]" by blast
  from ci have num: "v_version v = vcs_head db (v_prompt_id v) (v_branch v) + 1" by simp
  from vcs_head_append [OF app num, of pid br] ci
  have hd: "vcs_head db1 pid br =
            (if pid = p_id prompt \<and> br = vc_branch data then vcs_head db pid br + 1
             else vcs_head db pid br)" by simp
  from ci have ids: "v_prompt_id v = p_id prompt \<and> v_branch v = vc_branch data
                     \<and> v_version v = vcs_head db (p_id prompt) (vc_branch data) + 1"
    by simp
  from cv shape benign ids app hd
  show "\<exists>answer v db1 eff.
          create_version vcs get_event_publisher slug data db = (answer, db1, eff)
        \<and> (answer = Inr v \<or> (\<exists>b. answer = Inl (Uncaught (BaseException b))))
        \<and> (raises_exceptions_only get_event_publisher \<longrightarrow> answer = Inr v)
        \<and> v_prompt_id v = p_id prompt \<and> v_branch v = vc_branch data
        \<and> v_version v = vcs_head db (p_id prompt) (vc_branch data) + 1
        \<and> prompt_versions db1 = prompt_versions db @ [v]
        \<and> vcs_head db1 pid br =
            (if pid = p_id prompt \<and> br = vc_branch data then vcs_head db pid br + 1
             else vcs_head db pid br)"
    by blast
next
  assume "1 \<le> history_ceiling vcs"
  then show "(case vcs_history vcs db pid br 1 of [] \<Rightarrow> 0 | h # _ \<Rightarrow> v_version h)
             = vcs_head db pid br"
    by (rule history_head)
next
  let ?after = "branch_versions (snd (create_versions vcs get_event_publisher requests db))
                  pid br"
  from committed_on_run [of vcs get_event_publisher requests db pid br]
  obtain n where n: "map v_version ?after = map v_version (branch_versions db pid br)
                       @ [vcs_head db pid br + 1 .. vcs_head db pid br + int n]" by blast
  then have "length (map v_version ?after)
             = length (map v_version (branch_versions db pid br)
                       @ [vcs_head db pid br + 1 .. vcs_head db pid br + int n])"
    by (rule arg_cong)
  then have "length ?after - length (branch_versions db pid br) = n" by simp
  with n show "map v_version ?after = map v_version (branch_versions db pid br)
       @ [vcs_head db pid br + 1 ..
          vcs_head db pid br + int (length ?after - length (branch_versions db pid br))]"
    by simp
next
  let ?c = "committed_on pid br (fst (create_versions vcs get_event_publisher requests db))"
  assume "list_all (\<lambda>a. \<not> uncaught a)
            (fst (create_versions vcs get_event_publisher requests db))"
  with committed_on_run [of vcs get_event_publisher requests db pid br]
  obtain n where n: "?c = [vcs_head db pid br + 1 .. vcs_head db pid br + int n]" by blast
  then have "length ?c = n" by simp
  with n show "?c = [vcs_head db pid br + 1 .. vcs_head db pid br + int (length ?c)]"
    by simp
next
  assume "raises_exceptions_only get_event_publisher"
  then show "list_all (\<lambda>a. \<not> uncaught a)
               (fst (create_versions vcs get_event_publisher requests db))"
    by (rule create_versions_benign)
qed

theorem create_version_numbering_witness:
  "registry_get_prompt db_empty ''soul'' = Some \<lparr>p_id = ''p1'', p_slug = ''soul''\<rparr>
 \<and> vc_content (commit_to ''main'' [(''voice'', ''v1'')]) \<noteq> []
 \<and> 1 \<le> history_ceiling vcs_example
 \<and> raises_exceptions_only (Inl (Exception ''no publisher''))
 \<and> (\<exists>v db1 eff. create_version vcs_example (Inl (Exception ''no publisher'')) ''soul''
                     (commit_to ''main'' [(''voice'', ''v1'')]) db_empty = (Inr v, db1, eff)
        \<and> v_version v = 1 \<and> vcs_head db1 ''p1'' ''main'' = 1)
 \<and> list_all (\<lambda>a. \<not> uncaught a)
      (fst (create_versions vcs_example (Inl (Exception ''no publisher'')) requests_example
              db_empty))
 \<and> committed_on ''p1'' ''main''
      (fst (create_versions vcs_example (Inl (Exception ''no publisher'')) requests_example
              db_empty))
     = [1, 2, 3]
 \<and> map v_version (branch_versions
      (snd (create_versions vcs_example (Inl (Exception ''no publisher'')) requests_example
              db_empty)) ''p1'' ''main'')
     = [1, 2, 3]"
proof -
  let ?p = "\<lparr>p_id = ''p1'', p_slug = ''soul''\<rparr>"
  let ?gep = "Inl (Exception ''no publisher'') :: exn + publisher"
  let ?run = "create_versions vcs_example ?gep requests_example db_empty"
  note t = create_version_numbering [of db_empty "''soul''" ?p
             "commit_to ''main'' [(''voice'', ''v1'')]" vcs_example ?gep
             "''p1''" "''main''" requests_example]
  have g: "registry_get_prompt db_empty ''soul'' = Some ?p"
    by (simp add: registry_get_prompt_def db_empty_def)
  have c: "vc_content (commit_to ''main'' [(''voice'', ''v1'')]) \<noteq> []"
    by (simp add: commit_to_def)
  have k: "1 \<le> history_ceiling vcs_example" by (simp add: vcs_example_def)
  have q: "raises_exceptions_only ?gep" by (simp add: raises_exceptions_only_def)
  have h0: "vcs_head db_empty ''p1'' ''main'' = 0"
    by (simp add: vcs_head_def branch_versions_def db_empty_def)
  have b0: "branch_versions db_empty ''p1'' ''main'' = []"
    by (simp add: branch_versions_def db_empty_def)
  have br: "vc_branch (commit_to ''main'' [(''voice'', ''v1'')]) = ''main''"
    by (simp add: commit_to_def)
  from t g c q have "\<exists>v db1 eff. create_version vcs_example ?gep ''soul''
                     (commit_to ''main'' [(''voice'', ''v1'')]) db_empty = (Inr v, db1, eff)
        \<and> v_version v = vcs_head db_empty ''p1'' ''main'' + 1
        \<and> vcs_head db1 ''p1'' ''main'' = vcs_head db_empty ''p1'' ''main'' + 1"
    by (simp add: br) blast
  then have step: "\<exists>v db1 eff. create_version vcs_example ?gep ''soul''
                     (commit_to ''main'' [(''voice'', ''v1'')]) db_empty = (Inr v, db1, eff)
        \<and> v_version v = 1 \<and> vcs_head db1 ''p1'' ''main'' = 1"
    by (simp add: h0)
  from t q have ok: "list_all (\<lambda>a. \<not> uncaught a) (fst ?run)" by blast
  have ev: "length (branch_versions (snd ?run) ''p1'' ''main'') = 3"
    by (simp add: requests_example_def commit_to_def db_empty_def create_version_def
                  registry_get_prompt_def vcs_commit_def vcs_head_def branch_versions_def
                  vcs_history_def vcs_example_def notify_subscribers_def notify_try_def
                  no_effects_def Let_def)
  have ev2: "length (committed_on ''p1'' ''main'' (fst ?run)) = 3"
    by (simp add: requests_example_def commit_to_def db_empty_def create_version_def
                  registry_get_prompt_def vcs_commit_def vcs_head_def branch_versions_def
                  vcs_history_def vcs_example_def notify_subscribers_def notify_try_def
                  no_effects_def Let_def committed_on_def)
  from t have "map v_version (branch_versions (snd ?run) ''p1'' ''main'')
     = map v_version (branch_versions db_empty ''p1'' ''main'')
       @ [vcs_head db_empty ''p1'' ''main'' + 1 ..
          vcs_head db_empty ''p1'' ''main''
            + int (length (branch_versions (snd ?run) ''p1'' ''main'')
                   - length (branch_versions db_empty ''p1'' ''main''))]"
    by blast
  with h0 b0 ev have hist: "map v_version (branch_versions (snd ?run) ''p1'' ''main'')
                            = [1, 2, 3]"
    by (simp add: upto_rec1)
  from t ok have "committed_on ''p1'' ''main'' (fst ?run)
     = [vcs_head db_empty ''p1'' ''main'' + 1 ..
        vcs_head db_empty ''p1'' ''main''
          + int (length (committed_on ''p1'' ''main'' (fst ?run)))]"
    by blast
  with h0 ev2 have run: "committed_on ''p1'' ''main'' (fst ?run) = [1, 2, 3]"
    by (simp add: upto_rec1)
  from g c k q step ok run hist show ?thesis by blast
qed

section \<open>Properties of the rollback\<close>

lemma vcs_rollback_cases:
  "vcs_rollback vcs db pid n author = Inl InvalidContent
   \<or> vcs_rollback vcs db pid n author = Inr (None, db)
      \<and> vcs_get_version db pid n (rollback_branch vcs) = None
   \<or> (\<exists>target v. vcs_get_version db pid n (rollback_branch vcs) = Some target
         \<and> vcs_rollback vcs db pid n author
             = Inr (Some v, db\<lparr>prompt_versions := prompt_versions db @ [v]\<rparr>))"
proof (cases "vcs_get_version db pid n (rollback_branch vcs)")
  case None
  then show ?thesis by (simp add: vcs_rollback_def)
next
  case (Some target)
  show ?thesis
  proof (cases "vcs_commit db pid (v_content target) (rollback_message vcs n) author
                  (rollback_branch vcs)")
    case (Inl e)
    then have "e = InvalidContent"
      by (simp add: vcs_commit_def Let_def split: if_splits)
    with Some Inl show ?thesis by (simp add: vcs_rollback_def)
  next
    case (Inr r)
    obtain v db1 where r: "r = (v, db1)" by (cases r)
    from vcs_commit_Inr [OF Inr [unfolded r]]
    have "db1 = db\<lparr>prompt_versions := prompt_versions db @ [v]\<rparr>" by simp
    with Some Inr r show ?thesis by (simp add: vcs_rollback_def)
  qed
qed

lemma rollback_version_cases:
  "isl (fst (rollback_version vcs slug data db)) \<and> snd (rollback_version vcs slug data db) = db
   \<or> (\<exists>v. rollback_version vcs slug data db
            = (Inr v, db\<lparr>prompt_versions := prompt_versions db @ [v]\<rparr>))"
proof (cases "registry_get_prompt db slug")
  case None
  then show ?thesis by (simp add: rollback_version_def)
next
  case (Some prompt)
  from vcs_rollback_cases [of vcs db "p_id prompt" "rb_version data" "rb_author data"]
  show ?thesis
  proof (elim disjE exE conjE)
    assume "vcs_rollback vcs db (p_id prompt) (rb_version data) (rb_author data)
            = Inl InvalidContent"
    with Some show ?thesis by (simp add: rollback_version_def)
  next
    assume "vcs_rollback vcs db (p_id prompt) (rb_version data) (rb_author data)
            = Inr (None, db)"
    with Some show ?thesis by (simp add: rollback_version_def)
  next
    fix target v
    assume "vcs_rollback vcs db (p_id prompt) (rb_version data) (rb_author data)
            = Inr (Some v, db\<lparr>prompt_versions := prompt_versions db @ [v]\<rparr>)"
    with Some show ?thesis by (simp add: rollback_version_def)
  qed
qed

text \<open>
  Claim C8. For every rollback request of a known prompt whose target version does not
  exist on the branch, \<open>rollback_version\<close> answers 404 (not found) and returns the store
  as it was: no version is created, history and head are unchanged. When the target
  exists (with a content that a commit accepts), the answer is a new version with the
  content of the target, numbered head + 1, and the history after the call is the history
  before with that one version appended. Whatever the request, the history after the call
  is the history before followed by at most one version, so no prior version is rewritten
  or removed, and an error answer leaves the store as it was.
\<close>

theorem rollback_version_appends:
  "(registry_get_prompt db slug = Some prompt
      \<and> vcs_get_version db (p_id prompt) (rb_version data) (rollback_branch vcs) = None \<longrightarrow>
    rollback_version vcs slug data db
      = (Inl (HTTPException 404 (VersionNotFound (rb_version data))), db))
 \<and> (registry_get_prompt db slug = Some prompt
      \<and> vcs_get_version db (p_id prompt) (rb_version data) (rollback_branch vcs) = Some target
      \<and> v_content target \<noteq> [] \<longrightarrow>
    (\<exists>v. rollback_version vcs slug data db
            = (Inr v, db\<lparr>prompt_versions := prompt_versions db @ [v]\<rparr>)
        \<and> v_content v = v_content target
        \<and> v_version v = vcs_head db (p_id prompt) (rollback_branch vcs) + 1
        \<and> v_prompt_id v = p_id prompt \<and> v_branch v = rollback_branch vcs
        \<and> v_author v = rb_author data))
 \<and> (\<exists>vs. prompt_versions (snd (rollback_version vcs slug data db)) = prompt_versions db @ vs
        \<and> length vs \<le> 1)
 \<and> (isl (fst (rollback_version vcs slug data db)) \<longrightarrow>
      snd (rollback_version vcs slug data db) = db)"
proof (intro conjI impI)
  assume "registry_get_prompt db slug = Some prompt
      \<and> vcs_get_version db (p_id prompt) (rb_version data) (rollback_branch vcs) = None"
  then show "rollback_version vcs slug data db
      = (Inl (HTTPException 404 (VersionNotFound (rb_version data))), db)"
    by (simp add: rollback_version_def vcs_rollback_def)
next
  assume h: "registry_get_prompt db slug = Some prompt
      \<and> vcs_get_version db (p_id prompt) (rb_version data) (rollback_branch vcs) = Some target
      \<and> v_content target \<noteq> []"
  then obtain v db1 where
    c: "vcs_commit db (p_id prompt) (v_content target) (rollback_message vcs (rb_version data))
          (rb_author data) (rollback_branch vcs) = Inr (v, db1)"
    using vcs_commit_nonempty by blast
  note ci = vcs_commit_Inr [OF c]
  from h c have "rollback_version vcs slug data db = (Inr v, db1)"
    by (simp add: rollback_version_def vcs_rollback_def)
  with ci show "\<exists>v. rollback_version vcs slug data db
            = (Inr v, db\<lparr>prompt_versions := prompt_versions db @ [v]\<rparr>)
        \<and> v_content v = v_content target
        \<and> v_version v = vcs_head db (p_id prompt) (rollback_branch vcs) + 1
        \<and> v_prompt_id v = p_id prompt \<and> v_branch v = rollback_branch vcs
        \<and> v_author v = rb_author data"
    by auto
next
  from rollback_version_cases [of vcs slug data db]
  show "\<exists>vs. prompt_versions (snd (rollback_version vcs slug data db)) = prompt_versions db @ vs
        \<and> length vs \<le> 1"
  proof
    assume "isl (fst (rollback_version vcs slug data db))
            \<and> snd (rollback_version vcs slug data db) = db"
    then have "prompt_versions (snd (rollback_version vcs slug data db))
               = prompt_versions db @ [] \<and> length ([] :: version_row list) \<le> 1" by simp
    then show ?thesis by blast
  next
    assume "\<exists>v. rollback_version vcs slug data db
              = (Inr v, db\<lparr>prompt_versions := prompt_versions db @ [v]\<rparr>)"
    then obtain v :: version_row where "rollback_version vcs slug data db
              = (Inr v, db\<lparr>prompt_versions := prompt_versions db @ [v]\<rparr>)" by blast
    then have "prompt_versions (snd (rollback_version vcs slug data db))
               = prompt_versions db @ [v] \<and> length [v] \<le> 1" by simp
    then show ?thesis by blast
  qed
next
  assume i: "isl (fst (rollback_version vcs slug data db))"
  from rollback_version_cases [of vcs slug data db] i
  show "snd (rollback_version vcs slug data db) = db"
    by auto
qed

theorem rollback_version_appends_witness:
  "registry_get_prompt db_example ''soul'' = Some \<lparr>p_id = ''p1'', p_slug = ''soul''\<rparr>
 \<and> vcs_get_version db_example ''p1'' 7 ''main'' = None
 \<and> rollback_version vcs_example ''soul'' \<lparr>rb_version = 7, rb_author = ''bob''\<rparr> db_example
     = (Inl (HTTPException 404 (VersionNotFound 7)), db_example)
 \<and> (\<exists>target. vcs_get_version db_example ''p1'' 1 ''main'' = Some target
        \<and> v_content target \<noteq> [])
 \<and> rollback_version vcs_example ''soul'' \<lparr>rb_version = 1, rb_author = ''bob''\<rparr> db_example
     = (Inr \<lparr>v_prompt_id = ''p1'', v_branch = ''main'', v_version = 2,
             v_content = [(''voice'', ''v1''), (''identity'', ''i1'')],
             v_message = ''rollback'', v_author = ''bob''\<rparr>,
        db_example\<lparr>prompt_versions := prompt_versions db_example @
          [\<lparr>v_prompt_id = ''p1'', v_branch = ''main'', v_version = 2,
            v_content = [(''voice'', ''v1''), (''identity'', ''i1'')],
            v_message = ''rollback'', v_author = ''bob''\<rparr>]\<rparr>)"
proof -
  let ?p = "\<lparr>p_id = ''p1'', p_slug = ''soul''\<rparr>"
  let ?t = "\<lparr>v_prompt_id = ''p1'', v_branch = ''main'', v_version = 1,
             v_content = [(''voice'', ''v1''), (''identity'', ''i1'')],
             v_message = ''first'', v_author = ''ann''\<rparr>"
  have g: "registry_get_prompt db_example ''soul'' = Some ?p"
    by (simp add: registry_get_prompt_def db_example_def)
  have rb: "rollback_branch vcs_example = ''main''" by (simp add: vcs_example_def)
  have n: "vcs_get_version db_example ''p1'' 7 ''main'' = None"
    by (simp add: vcs_get_version_def branch_versions_def db_example_def)
  have s: "vcs_get_version db_example ''p1'' 1 ''main'' = Some ?t"
    by (simp add: vcs_get_version_def branch_versions_def db_example_def)
  note t1 = rollback_version_appends [of db_example "''soul''" ?p
              "\<lparr>rb_version = 7, rb_author = ''bob''\<rparr>" vcs_example ?t]
  note t2 = rollback_version_appends [of db_example "''soul''" ?p
              "\<lparr>rb_version = 1, rb_author = ''bob''\<rparr>" vcs_example ?t]
  from t1 g n rb
  have a: "rollback_version vcs_example ''soul'' \<lparr>rb_version = 7, rb_author = ''bob''\<rparr> db_example
           = (Inl (HTTPException 404 (VersionNotFound 7)), db_example)"
    by simp
  from t2 g s rb
  have "\<exists>v. rollback_version vcs_example ''soul'' \<lparr>rb_version = 1, rb_author = ''bob''\<rparr>
               db_example
             = (Inr v, db_example\<lparr>prompt_versions := prompt_versions db_example @ [v]\<rparr>)"
    by simp blast
  moreover
  have "fst (rollback_version vcs_example ''soul'' \<lparr>rb_version = 1, rb_author = ''bob''\<rparr>
               db_example)
        = Inr \<lparr>v_prompt_id = ''p1'', v_branch = ''main'', v_version = 2,
             v_content = [(''voice'', ''v1''), (''identity'', ''i1'')],
             v_message = ''rollback'', v_author = ''bob''\<rparr>"
    by (simp add: rollback_version_def vcs_rollback_def registry_get_prompt_def
                  vcs_get_version_def branch_versions_def db_example_def vcs_example_def
                  vcs_commit_def vcs_head_def Let_def)
  ultimately
  have b: "rollback_version vcs_example ''soul'' \<lparr>rb_version = 1, rb_author = ''bob''\<rparr>
             db_example
     = (Inr \<lparr>v_prompt_id = ''p1'', v_branch = ''main'', v_version = 2,
             v_content = [(''voice'', ''v1''), (''identity'', ''i1'')],
             v_message = ''rollback'', v_author = ''bob''\<rparr>,
        db_example\<lparr>prompt_versions := prompt_versions db_example @
          [\<lparr>v_prompt_id = ''p1'', v_branch = ''main'', v_version = 2,
            v_content = [(''voice'', ''v1''), (''identity'', ''i1'')],
            v_message = ''rollback'', v_author = ''bob''\<rparr>]\<rparr>)"
    by auto
  from g n a s b show ?thesis by simp
qed

end
